theory Spec2Isabelle
  imports Complex_Main
begin

section \<open>JavaScript numbers\<close>

text \<open>
  The two programs, \<^verbatim>\<open>video_to_frames.js\<close> (the command-line tool) and
  \<^verbatim>\<open>server.js\<close> (the upload server), compute with JavaScript numbers, which are IEEE 754
  binary64 values. A finite non-zero number is modelled by the real it denotes, \<open>Num 0\<close> is
  \<open>+0\<close> and \<open>NegZero\<close> is \<open>-0\<close>. The values of the program are the reals that binary64
  represents; every operation below that can leave this set rounds its exact result back
  into it with \<open>number_value\<close>.
\<close>

datatype jsnum = Num real | NegZero | NaN | PosInf | NegInf

fun js_neg :: "jsnum \<Rightarrow> jsnum" where
  "js_neg (Num r) = (if r = 0 then NegZero else Num (- r))"
| "js_neg NegZero = Num 0"
| "js_neg NaN = NaN"
| "js_neg PosInf = NegInf"
| "js_neg NegInf = PosInf"

text \<open>
  The binary exponent of a positive real: the \<open>e\<close> with \<open>2\<^sup>e \<le> x < 2\<^sup>e\<^sup>+\<^sup>1\<close>, found by
  halving or doubling.
\<close>

function log2_up :: "real \<Rightarrow> int" where
  "log2_up x = (if 2 \<le> x then log2_up (x / 2) + 1 else 0)"
  by pat_completeness auto
termination
proof (relation "measure (\<lambda>x. nat \<lfloor>x\<rfloor>)")
  show "wf (measure (\<lambda>x. nat \<lfloor>x\<rfloor>))" by simp
next
  fix x :: real
  assume "2 \<le> x"
  then have "\<lfloor>x / 2\<rfloor> < \<lfloor>x\<rfloor>" by linarith
  moreover have "0 < \<lfloor>x\<rfloor>" using \<open>2 \<le> x\<close> by linarith
  ultimately show "(x / 2, x) \<in> measure (\<lambda>x. nat \<lfloor>x\<rfloor>)" by simp
qed

function log2_down :: "real \<Rightarrow> int" where
  "log2_down x = (if 0 < x \<and> x < 1 then log2_down (2 * x) - 1 else 0)"
  by pat_completeness auto
termination
proof (relation "measure (\<lambda>x. nat \<lceil>1 / x\<rceil>)")
  show "wf (measure (\<lambda>x. nat \<lceil>1 / x\<rceil>))" by simp
next
  fix x :: real
  assume a: "0 < x \<and> x < 1"
  then have "1 < 1 / x" by simp
  then have c: "2 \<le> \<lceil>1 / x\<rceil>" by linarith
  have "1 / (2 * x) = (1 / x) / 2" by simp
  also have "\<dots> \<le> of_int \<lceil>1 / x\<rceil> / 2" by (simp add: divide_right_mono)
  finally have "\<lceil>1 / (2 * x)\<rceil> \<le> \<lceil>of_int \<lceil>1 / x\<rceil> / (2::real)\<rceil>" by (rule ceiling_mono)
  also have "\<dots> < \<lceil>1 / x\<rceil>" using c by linarith
  finally show "(2 * x, x) \<in> measure (\<lambda>x. nat \<lceil>1 / x\<rceil>)" using a c by simp
qed

declare log2_up.simps [simp del] log2_down.simps [simp del]

definition ilog2 :: "real \<Rightarrow> int" where
  "ilog2 x = (if x < 1 then log2_down x else log2_up x)"

text \<open>Rounding to the nearest integer, a tie to the even one.\<close>

definition round_half_even :: "real \<Rightarrow> int" where
  "round_half_even y =
     (let f = \<lfloor>y\<rfloor>; d = y - of_int f
      in if d < 1 / 2 then f else if 1 / 2 < d then f + 1 else if even f then f else f + 1)"

text \<open>
  The Number value for a real: the binary64 value nearest to it, a tie to the even
  significand. A positive real with binary exponent \<open>e\<close> is rounded to a multiple of
  \<open>2\<^sup>e\<^sup>-\<^sup>5\<^sup>2\<close> (of \<open>2\<^sup>-\<^sup>1\<^sup>0\<^sup>7\<^sup>4\<close> in the subnormal range); a result of \<open>2\<^sup>1\<^sup>0\<^sup>2\<^sup>4\<close> or more is
  \<open>Infinity\<close>, and a result of zero is a zero of the sign of the real.
\<close>

definition number_value_pos :: "real \<Rightarrow> jsnum" where
  "number_value_pos x =
     (let e = max (ilog2 x) (- 1022);
          q = 2 powi (e - 52);
          r = of_int (round_half_even (x / q)) * q
      in if 2 ^ 1024 \<le> r then PosInf else Num r)"

definition number_value :: "real \<Rightarrow> jsnum" where
  "number_value x =
     (if x = 0 then Num 0
      else if 0 < x then number_value_pos x
      else js_neg (number_value_pos (- x)))"

text \<open>The sign bit, and the real a finite number denotes.\<close>

fun negative :: "jsnum \<Rightarrow> bool" where
  "negative (Num r) = (r < 0)"
| "negative NegZero = True"
| "negative NegInf = True"
| "negative PosInf = False"
| "negative NaN = False"

fun real_of :: "jsnum \<Rightarrow> real" where
  "real_of (Num r) = r"
| "real_of x = 0"

definition is_infinite :: "jsnum \<Rightarrow> bool" where
  "is_infinite a = (a = PosInf \<or> a = NegInf)"

definition is_zero :: "jsnum \<Rightarrow> bool" where
  "is_zero a = (a = Num 0 \<or> a = NegZero)"

definition signed_zero :: "bool \<Rightarrow> jsnum" where
  "signed_zero neg = (if neg then NegZero else Num 0)"

definition signed_infinity :: "bool \<Rightarrow> jsnum" where
  "signed_infinity neg = (if neg then NegInf else PosInf)"

text \<open>
  The operator \<^verbatim>\<open>/\<close> on numbers: the special cases of IEEE division, and otherwise the
  exact quotient rounded.
\<close>

definition js_div :: "jsnum \<Rightarrow> jsnum \<Rightarrow> jsnum" where
  "js_div a b =
     (if a = NaN \<or> b = NaN then NaN
      else if is_infinite a then
        (if is_infinite b then NaN else signed_infinity (negative a \<noteq> negative b))
      else if is_infinite b then signed_zero (negative a \<noteq> negative b)
      else if is_zero b then
        (if is_zero a then NaN else signed_infinity (negative a \<noteq> negative b))
      else if is_zero a then signed_zero (negative a \<noteq> negative b)
      else number_value (real_of a / real_of b))"

text \<open>
  \<^verbatim>\<open>Math.round\<close> rounds to the nearest integer, a tie towards plus infinity, and
  \<^verbatim>\<open>Math.ceil\<close> rounds up; a zero result of a negative argument is \<open>-0\<close>. The integer
  nearest to, or next above, a binary64 value is a binary64 value.
\<close>

fun Math_round :: "jsnum \<Rightarrow> jsnum" where
  "Math_round (Num r) =
     (if \<lfloor>r + 1 / 2\<rfloor> = 0 \<and> r < 0 then NegZero else Num (of_int \<lfloor>r + 1 / 2\<rfloor>))"
| "Math_round x = x"

fun Math_ceil :: "jsnum \<Rightarrow> jsnum" where
  "Math_ceil (Num r) = (if \<lceil>r\<rceil> = 0 \<and> r < 0 then NegZero else Num (of_int \<lceil>r\<rceil>))"
| "Math_ceil x = x"

text \<open>
  \<^verbatim>\<open>Math.max\<close> and \<^verbatim>\<open>Math.min\<close> of two numbers: \<open>NaN\<close> as soon as one is, and \<open>-0\<close>
  counts as smaller than \<open>+0\<close>.
\<close>

definition Math_max :: "jsnum \<Rightarrow> jsnum \<Rightarrow> jsnum" where
  "Math_max a b =
     (if a = NaN \<or> b = NaN then NaN
      else if a = PosInf \<or> b = PosInf then PosInf
      else if a = NegInf then b
      else if b = NegInf then a
      else if real_of a < real_of b then b
      else if real_of b < real_of a then a
      else if a = NegZero then b else a)"

definition Math_min :: "jsnum \<Rightarrow> jsnum \<Rightarrow> jsnum" where
  "Math_min a b =
     (if a = NaN \<or> b = NaN then NaN
      else if a = NegInf \<or> b = NegInf then NegInf
      else if a = PosInf then b
      else if b = PosInf then a
      else if real_of a < real_of b then a
      else if real_of b < real_of a then b
      else if a = NegZero then a else b)"

text \<open>The comparison \<^verbatim>\<open><=\<close> on numbers: false as soon as one side is \<open>NaN\<close>.\<close>

definition js_le :: "jsnum \<Rightarrow> jsnum \<Rightarrow> bool" where
  "js_le a b =
     (if a = NaN \<or> b = NaN then False
      else if a = NegInf \<or> b = PosInf then True
      else if a = PosInf \<or> b = NegInf then False
      else real_of a \<le> real_of b)"

text \<open>
  Truthiness of an optional number, as tested by \<^verbatim>\<open>argv.maxFrames ? ... : ...\<close> and
  \<^verbatim>\<open>if (maxFrames)\<close>: \<open>None\<close> is \<^verbatim>\<open>undefined\<close> (the option was not given on the command
  line, or the argument was not passed).
\<close>

fun truthy :: "jsnum option \<Rightarrow> bool" where
  "truthy None = False"
| "truthy (Some NaN) = False"
| "truthy (Some NegZero) = False"
| "truthy (Some (Num r)) = (r \<noteq> 0)"
| "truthy (Some PosInf) = True"
| "truthy (Some NegInf) = True"

section \<open>The sampling planner of the command-line tool\<close>

text \<open>
  \<^verbatim>\<open>video_to_frames.js\<close>, line 114:
  \<^verbatim>\<open>const frameInterval = Math.max(1, Math.round(100 / argv.percentage));\<close>
\<close>

definition frameInterval :: "jsnum \<Rightarrow> jsnum" where
  "frameInterval percentage = Math_max (Num 1) (Math_round (js_div (Num 100) percentage))"

text \<open>
  Lines 117 to 119:
  \<^verbatim>\<open>const effectiveMaxFrames = argv.maxFrames
      ? Math.min(argv.maxFrames, Math.ceil(totalFrames / frameInterval))
      : Math.ceil(totalFrames / frameInterval);\<close>
\<close>

definition effectiveMaxFrames :: "jsnum option \<Rightarrow> jsnum \<Rightarrow> jsnum \<Rightarrow> jsnum" where
  "effectiveMaxFrames maxFrames totalFrames interval =
     (case maxFrames of
        Some cap \<Rightarrow>
          if truthy (Some cap) then Math_min cap (Math_ceil (js_div totalFrames interval))
          else Math_ceil (js_div totalFrames interval)
      | None \<Rightarrow> Math_ceil (js_div totalFrames interval))"

text \<open>The pair of values \<^verbatim>\<open>main\<close> computes and hands to the extractor.\<close>

record SamplingPlan =
  plan_interval :: jsnum
  plan_max :: jsnum

definition plan :: "jsnum \<Rightarrow> jsnum \<Rightarrow> jsnum option \<Rightarrow> SamplingPlan" where
  "plan totalFrames percentage maxFrames =
     (let interval = frameInterval percentage
      in \<lparr>plan_interval = interval,
          plan_max = effectiveMaxFrames maxFrames totalFrames interval\<rparr>)"

section \<open>Numbers and strings\<close>

text \<open>
  A string is a list of characters, each standing for a code unit below 256; the strings
  this program handles (decimal numerals, \<^verbatim>\<open>N/A\<close>, option names, paths) are of this kind.
\<close>

fun index_of :: "char \<Rightarrow> string \<Rightarrow> nat option" where
  "index_of c [] = None"
| "index_of c (x # xs) = (if c = x then Some 0 else map_option Suc (index_of c xs))"

text \<open>The value of a digit in a radix up to 16, if the character is one.\<close>

definition digit_val :: "nat \<Rightarrow> char \<Rightarrow> nat option" where
  "digit_val radix c =
     (case index_of c ''0123456789abcdef'' of
        Some d \<Rightarrow> if d < radix then Some d else None
      | None \<Rightarrow>
          (case index_of c ''0123456789ABCDEF'' of
             Some d \<Rightarrow> if d < radix then Some d else None
           | None \<Rightarrow> None))"

definition is_digit :: "nat \<Rightarrow> char \<Rightarrow> bool" where
  "is_digit radix c = (digit_val radix c \<noteq> None)"

definition digits_value :: "nat \<Rightarrow> string \<Rightarrow> nat" where
  "digits_value radix s =
     foldl (\<lambda>acc c. acc * radix + (case digit_val radix c of Some d \<Rightarrow> d | None \<Rightarrow> 0)) 0 s"

text \<open>
  White space and line terminators among the code units below 256: tab, line feed,
  vertical tab, form feed, carriage return, space and no-break space.
\<close>

definition is_ws :: "char \<Rightarrow> bool" where
  "is_ws c =
     (c \<in> set [CHR 0x09, CHR 0x0A, CHR 0x0B, CHR 0x0C, CHR 0x0D, CHR 0x20, CHR 0xA0])"

definition trim :: "string \<Rightarrow> string" where
  "trim s = rev (dropWhile is_ws (rev (dropWhile is_ws s)))"

text \<open>
  \<^verbatim>\<open>parseInt(s)\<close> with no radix: leading white space is skipped, a sign is read, a
  \<^verbatim>\<open>0x\<close> prefix selects radix 16, and the longest run of digits is read; whatever follows
  the digits is ignored, and no digit at all gives \<open>NaN\<close>. The result is the Number value
  for the integer the digits denote, with the sign (so \<^verbatim>\<open>-0\<close> gives \<open>-0\<close>).
\<close>

definition parseInt :: "string \<Rightarrow> jsnum" where
  "parseInt s =
     (let s1 = dropWhile is_ws s;
          minus = (case s1 of c # _ \<Rightarrow> c = CHR ''-'' | [] \<Rightarrow> False);
          s2 = (case s1 of c # r \<Rightarrow> if c = CHR ''-'' \<or> c = CHR ''+'' then r else s1 | [] \<Rightarrow> s1);
          hex = (case s2 of a # b # _ \<Rightarrow> a = CHR ''0'' \<and> (b = CHR ''x'' \<or> b = CHR ''X'')
                 | _ \<Rightarrow> False);
          radix = (if hex then 16 else 10);
          s3 = (if hex then drop 2 s2 else s2);
          z = takeWhile (is_digit radix) s3
      in if z = [] then NaN
         else if minus then js_neg (number_value (real (digits_value radix z)))
         else number_value (real (digits_value radix z)))"

text \<open>
  The conversion of a string to a number, which \<^verbatim>\<open>num / den\<close> applies to both operands:
  the whole trimmed string must be a numeric literal (a signed decimal literal with optional
  fraction and exponent, \<^verbatim>\<open>Infinity\<close>, or an unsigned hexadecimal, octal or binary
  literal); the empty string is \<open>0\<close> and anything else is \<open>NaN\<close>. The result is the Number
  value for the real the literal denotes.
\<close>

definition exponent_part :: "string \<Rightarrow> int option" where
  "exponent_part s =
     (case s of
        [] \<Rightarrow> Some 0
      | e # r \<Rightarrow>
          if e = CHR ''e'' \<or> e = CHR ''E'' then
            (let neg = (case r of c # _ \<Rightarrow> c = CHR ''-'' | [] \<Rightarrow> False);
                 ds = (case r of c # r' \<Rightarrow> if c = CHR ''-'' \<or> c = CHR ''+'' then r' else r
                       | [] \<Rightarrow> r)
             in if ds \<noteq> [] \<and> list_all (is_digit 10) ds
                then Some (if neg then - int (digits_value 10 ds) else int (digits_value 10 ds))
                else None)
          else None)"

definition unsigned_decimal :: "string \<Rightarrow> jsnum option" where
  "unsigned_decimal s =
     (if s = ''Infinity'' then Some PosInf
      else
        (let ip = takeWhile (is_digit 10) s;
             r1 = dropWhile (is_digit 10) s;
             dot = (case r1 of c # _ \<Rightarrow> c = CHR ''.'' | [] \<Rightarrow> False);
             fp = (if dot then takeWhile (is_digit 10) (drop 1 r1) else []);
             r2 = (if dot then dropWhile (is_digit 10) (drop 1 r1) else r1)
         in if ip = [] \<and> fp = [] then None
            else
              (case exponent_part r2 of
                 None \<Rightarrow> None
               | Some e \<Rightarrow>
                   Some (number_value
                           ((real (digits_value 10 ip)
                             + real (digits_value 10 fp) / 10 ^ length fp) * 10 powi e)))))"

definition non_decimal :: "string \<Rightarrow> jsnum option" where
  "non_decimal s =
     (case s of
        a # b # ds \<Rightarrow>
          (let radix = (if b = CHR ''x'' \<or> b = CHR ''X'' then 16
                        else if b = CHR ''o'' \<or> b = CHR ''O'' then 8
                        else if b = CHR ''b'' \<or> b = CHR ''B'' then 2 else 0)
           in if a = CHR ''0'' \<and> radix \<noteq> 0 \<and> ds \<noteq> [] \<and> list_all (is_digit radix) ds
              then Some (number_value (real (digits_value radix ds))) else None)
      | _ \<Rightarrow> None)"

definition string_to_number :: "string \<Rightarrow> jsnum" where
  "string_to_number s =
     (let t = trim s
      in case t of
           [] \<Rightarrow> Num 0
         | c # r \<Rightarrow>
             (let lit =
                (if c = CHR ''+'' then unsigned_decimal r
                 else if c = CHR ''-'' then map_option js_neg (unsigned_decimal r)
                 else (case unsigned_decimal t of Some v \<Rightarrow> Some v | None \<Rightarrow> non_decimal t))
              in case lit of Some v \<Rightarrow> v | None \<Rightarrow> NaN))"

text \<open>An operand that is \<^verbatim>\<open>undefined\<close> (\<open>None\<close>) converts to \<open>NaN\<close>.\<close>

definition to_number_opt :: "string option \<Rightarrow> jsnum" where
  "to_number_opt v = (case v of None \<Rightarrow> NaN | Some s \<Rightarrow> string_to_number s)"

text \<open>Decimal numerals of integers.\<close>

function nat_digits :: "nat \<Rightarrow> string" where
  "nat_digits n =
     (if n < 10 then [''0123456789'' ! n]
      else nat_digits (n div 10) @ [''0123456789'' ! (n mod 10)])"
  by pat_completeness auto
termination
  by (relation "measure id") auto

declare nat_digits.simps [simp del]

definition int_to_string :: "int \<Rightarrow> string" where
  "int_to_string i = (if i < 0 then CHR ''-'' # nat_digits (nat (- i)) else nat_digits (nat i))"

function zeros :: "nat \<Rightarrow> string" where
  "zeros n = (if n = 0 then [] else CHR ''0'' # zeros (n - 1))"
  by pat_completeness auto
termination
  by (relation "measure id") auto

declare zeros.simps [simp del]

text \<open>
  The string of a number, as \<^verbatim>\<open>maxFrames.toString()\<close> and a template literal produce
  it. For a positive value \<open>x\<close> it is made of the shortest digit string \<open>s\<close> (of \<open>k\<close> digits;
  17 always suffice for a binary64 value, so the search stops there) and the decimal
  exponent \<open>n\<close> such that the Number value for \<open>s \<times> 10\<^sup>n\<^sup>-\<^sup>k\<close> is \<open>x\<close>; of two such \<open>s\<close> the one
  nearer to \<open>x\<close> is taken. The digits are laid out
  positionally when \<open>-5 \<le> n \<le> 21\<close> and with an exponent otherwise.
\<close>

function dec_up :: "real \<Rightarrow> int" where
  "dec_up x = (if 10 \<le> x then dec_up (x / 10) + 1 else 1)"
  by pat_completeness auto
termination
proof (relation "measure (\<lambda>x. nat \<lfloor>x\<rfloor>)")
  show "wf (measure (\<lambda>x. nat \<lfloor>x\<rfloor>))" by simp
next
  fix x :: real
  assume "10 \<le> x"
  then have "\<lfloor>x / 10\<rfloor> < \<lfloor>x\<rfloor>" by linarith
  moreover have "0 < \<lfloor>x\<rfloor>" using \<open>10 \<le> x\<close> by linarith
  ultimately show "(x / 10, x) \<in> measure (\<lambda>x. nat \<lfloor>x\<rfloor>)" by simp
qed

function dec_down :: "real \<Rightarrow> int" where
  "dec_down x = (if 0 < x \<and> x < 1 then dec_down (10 * x) - 1 else 1)"
  by pat_completeness auto
termination
proof (relation "measure (\<lambda>x. nat \<lceil>1 / x\<rceil>)")
  show "wf (measure (\<lambda>x. nat \<lceil>1 / x\<rceil>))" by simp
next
  fix x :: real
  assume a: "0 < x \<and> x < 1"
  then have "1 < 1 / x" by simp
  then have c: "2 \<le> \<lceil>1 / x\<rceil>" by linarith
  have "1 / (10 * x) = (1 / x) / 10" by simp
  also have "\<dots> \<le> of_int \<lceil>1 / x\<rceil> / 10" by (simp add: divide_right_mono)
  finally have "\<lceil>1 / (10 * x)\<rceil> \<le> \<lceil>of_int \<lceil>1 / x\<rceil> / (10::real)\<rceil>" by (rule ceiling_mono)
  also have "\<dots> < \<lceil>1 / x\<rceil>" using c by linarith
  finally show "(10 * x, x) \<in> measure (\<lambda>x. nat \<lceil>1 / x\<rceil>)" using a c by simp
qed

declare dec_up.simps [simp del] dec_down.simps [simp del]

text \<open>The \<open>n\<close> with \<open>10\<^sup>n\<^sup>-\<^sup>1 \<le> x < 10\<^sup>n\<close>, for a positive \<open>x\<close>.\<close>

definition dec_exp :: "real \<Rightarrow> int" where
  "dec_exp x = (if x < 1 then dec_down x else dec_up x)"

text \<open>
  The \<open>k\<close>-digit candidates for \<open>x\<close> are the two multiples of \<open>10\<^sup>n\<^sup>-\<^sup>k\<close> around it; one is
  a digit string for \<open>x\<close> when its Number value is \<open>x\<close>.
\<close>

definition digits_for :: "nat \<Rightarrow> int \<Rightarrow> real \<Rightarrow> int option" where
  "digits_for k n x =
     (let scale = 10 powi (n - int k);
          lo = \<lfloor>x / scale\<rfloor>;
          hi = lo + 1;
          ok_lo = (number_value (of_int lo * scale) = Num x);
          ok_hi = (number_value (of_int hi * scale) = Num x)
      in if ok_lo \<and> ok_hi then
           (let dl = x - of_int lo * scale; dh = of_int hi * scale - x
            in Some (if dl < dh then lo else if dh < dl then hi else if even lo then lo else hi))
         else if ok_lo then Some lo
         else if ok_hi then Some hi
         else None)"

function shortest_digits :: "nat \<Rightarrow> int \<Rightarrow> real \<Rightarrow> int \<times> nat" where
  "shortest_digits k n x =
     (if 17 < k then (\<lfloor>x / 10 powi (n - int k)\<rfloor>, k)
      else (case digits_for k n x of
              Some s \<Rightarrow> (s, k)
            | None \<Rightarrow> shortest_digits (Suc k) n x))"
  by pat_completeness auto
termination
  by (relation "measure (\<lambda>(k, n, x). 18 - k)") auto

declare shortest_digits.simps [simp del]

text \<open>
  The layout: \<open>carry\<close> is the case where the upper candidate is \<open>10\<^sup>k\<close>, which is the
  digit \<open>1\<close> with the exponent one higher.
\<close>

definition positive_to_string :: "real \<Rightarrow> string" where
  "positive_to_string x =
     (let n0 = dec_exp x;
          found = shortest_digits 1 n0 x;
          carry = (fst found = 10 ^ snd found);
          s = (if carry then 1 else fst found);
          k = (if carry then 1 else snd found);
          n = (if carry then n0 + 1 else n0);
          ds = nat_digits (nat s)
      in if - 5 \<le> n \<and> n \<le> 21 then
           (if int k \<le> n then ds @ zeros (nat (n - int k))
            else if 0 < n then take (nat n) ds @ ''.'' @ drop (nat n) ds
            else ''0.'' @ zeros (nat (- n)) @ ds)
         else
           (let e = n - 1;
                exponent = (if e < 0 then ''-'' else ''+'') @ nat_digits (nat \<bar>e\<bar>)
            in if k = 1 then ds @ ''e'' @ exponent
               else take 1 ds @ ''.'' @ drop 1 ds @ ''e'' @ exponent))"

fun number_to_string :: "jsnum \<Rightarrow> string" where
  "number_to_string NaN = ''NaN''"
| "number_to_string PosInf = ''Infinity''"
| "number_to_string NegInf = ''-Infinity''"
| "number_to_string NegZero = ''0''"
| "number_to_string (Num r) =
     (if r = 0 then ''0''
      else if r < 0 then ''-'' @ positive_to_string (- r)
      else positive_to_string r)"

text \<open>\<^verbatim>\<open>s.split('/')\<close>: the fields between the separators, at least one.\<close>

fun split_on :: "char \<Rightarrow> string \<Rightarrow> string list" where
  "split_on c [] = [[]]"
| "split_on c (x # xs) =
     (if x = c then [] # split_on c xs
      else (case split_on c xs of [] \<Rightarrow> [[x]] | w # ws \<Rightarrow> (x # w) # ws))"

fun join_with :: "string \<Rightarrow> string list \<Rightarrow> string" where
  "join_with sep [] = []"
| "join_with sep [x] = x"
| "join_with sep (x # y # ys) = x @ sep @ join_with sep (y # ys)"

section \<open>Parsed probe output\<close>

text \<open>
  \<^verbatim>\<open>JSON.parse\<close> is library code: the model starts from its result, a JSON value, or
  \<open>None\<close> when it throws a \<^verbatim>\<open>SyntaxError\<close>. A value that is \<^verbatim>\<open>undefined\<close> (a missing
  property, an index out of range) is \<open>None\<close> of type \<open>json option\<close>.
\<close>

datatype json =
    JNull
  | JBool bool
  | JNum jsnum
  | JStr string
  | JArr "json list"
  | JObj "(string \<times> json) list"

text \<open>
  What a failing step raises: \<open>Error\<close> with its message is what the source constructs
  with \<^verbatim>\<open>new Error(...)\<close>; the others are raised by the runtime.
\<close>

datatype jserror = Error string | SyntaxError | TypeError | FsError

text \<open>
  How an operation that returns a promise ends. \<open>Uncaught\<close>: an exception was thrown
  inside the \<^verbatim>\<open>close\<close> event handler, outside the promise executor, so that the promise
  is neither resolved nor rejected and the exception reaches no \<^verbatim>\<open>catch\<close>.
\<close>

datatype 'a outcome = Resolved 'a | Rejected jserror | Uncaught jserror

text \<open>
  The string of a value, which \<^verbatim>\<open>parseInt\<close> takes of its argument first. An array is
  the strings of its elements joined by commas, \<^verbatim>\<open>null\<close> elements being empty. An object
  is \<^verbatim>\<open>[object Object]\<close>, unless it has a property \<^verbatim>\<open>toString\<close> of its own: that is data
  and not a function, the inherited \<^verbatim>\<open>valueOf\<close> returns the object itself, and the
  conversion throws a \<^verbatim>\<open>TypeError\<close>. The first element that throws decides.
\<close>

fun collect :: "(jserror + string) list \<Rightarrow> jserror + string list" where
  "collect [] = Inr []"
| "collect (Inl e # rs) = Inl e"
| "collect (Inr s # rs) = (case collect rs of Inl e \<Rightarrow> Inl e | Inr ss \<Rightarrow> Inr (s # ss))"

fun to_string :: "json \<Rightarrow> jserror + string" where
  "to_string JNull = Inr ''null''"
| "to_string (JBool b) = Inr (if b then ''true'' else ''false'')"
| "to_string (JNum n) = Inr (number_to_string n)"
| "to_string (JStr s) = Inr s"
| "to_string (JArr xs) =
     (case collect (map (\<lambda>x. if x = JNull then Inr [] else to_string x) xs) of
        Inl e \<Rightarrow> Inl e
      | Inr ss \<Rightarrow> Inr (join_with '','' ss))"
| "to_string (JObj kvs) =
     (if map_of kvs ''toString'' = None then Inr ''[object Object]'' else Inl TypeError)"

definition to_string_opt :: "json option \<Rightarrow> jserror + string" where
  "to_string_opt v = (case v of None \<Rightarrow> Inr ''undefined'' | Some j \<Rightarrow> to_string j)"

text \<open>
  Reading a property by name, for the names this program reads (\<^verbatim>\<open>streams\<close>,
  \<^verbatim>\<open>r_frame_rate\<close>, \<^verbatim>\<open>nb_frames\<close>, none of which is inherited from a prototype):
  \<^verbatim>\<open>undefined\<close> and \<^verbatim>\<open>null\<close> throw, an object gives its own property (the last one of
  that name in the text), any other value gives \<^verbatim>\<open>undefined\<close>.
\<close>

definition get_member :: "json option \<Rightarrow> string \<Rightarrow> jserror + json option" where
  "get_member v key =
     (case v of
        None \<Rightarrow> Inl TypeError
      | Some JNull \<Rightarrow> Inl TypeError
      | Some (JObj kvs) \<Rightarrow> Inr (map_of (rev kvs) key)
      | Some _ \<Rightarrow> Inr None)"

text \<open>Reading index \<^verbatim>\<open>[0]\<close>.\<close>

definition get_first :: "json option \<Rightarrow> jserror + json option" where
  "get_first v =
     (case v of
        None \<Rightarrow> Inl TypeError
      | Some JNull \<Rightarrow> Inl TypeError
      | Some (JArr xs) \<Rightarrow> Inr (case xs of [] \<Rightarrow> None | x # _ \<Rightarrow> Some x)
      | Some (JStr s) \<Rightarrow> Inr (case s of [] \<Rightarrow> None | c # _ \<Rightarrow> Some (JStr [c]))
      | Some (JObj kvs) \<Rightarrow> Inr (map_of (rev kvs) ''0'')
      | Some _ \<Rightarrow> Inr None)"

section \<open>The prober\<close>

record VideoInfo =
  frameRate :: jsnum
  totalFrames :: jsnum

text \<open>
  \<^verbatim>\<open>getVideoInfo\<close> is the same text in both files (\<^verbatim>\<open>video_to_frames.js\<close> lines 35 to
  69, \<^verbatim>\<open>server.js\<close> lines 124 to 158). Its \<^verbatim>\<open>close\<close> handler receives the exit code
  (\<open>None\<close> is \<^verbatim>\<open>null\<close>, a process ended by a signal); \<open>parsed\<close> is the result of
  \<^verbatim>\<open>JSON.parse(output)\<close> on the collected standard output.
  \<^verbatim>\<open>
  if (code !== 0) { reject(new Error('Failed to get video information')); return; }
  const info = JSON.parse(output);
  const stream = info.streams[0];
  const [num, den] = stream.r_frame_rate.split('/');
  const frameRate = num / den;
  const totalFrames = parseInt(stream.nb_frames);
  resolve({ frameRate, totalFrames });
  \<close>
  Only a string has a \<^verbatim>\<open>split\<close> method, so any other \<^verbatim>\<open>r_frame_rate\<close> throws a
  \<^verbatim>\<open>TypeError\<close>; and \<^verbatim>\<open>parseInt\<close> throws when the string of its argument cannot be
  taken.
\<close>

definition getVideoInfo_close :: "int option \<Rightarrow> json option \<Rightarrow> VideoInfo outcome" where
  "getVideoInfo_close code parsed =
     (if code \<noteq> Some 0 then Rejected (Error ''Failed to get video information'')
      else
        (case parsed of
           None \<Rightarrow> Uncaught SyntaxError
         | Some info \<Rightarrow>
             (case get_member (Some info) ''streams'' of
                Inl e \<Rightarrow> Uncaught e
              | Inr streams \<Rightarrow>
                  (case get_first streams of
                     Inl e \<Rightarrow> Uncaught e
                   | Inr stream \<Rightarrow>
                       (case get_member stream ''r_frame_rate'' of
                          Inl e \<Rightarrow> Uncaught e
                        | Inr (Some (JStr rate)) \<Rightarrow>
                            (let parts = split_on CHR ''/'' rate;
                                 num = (case parts of [] \<Rightarrow> None | a # _ \<Rightarrow> Some a);
                                 den = (case parts of a # b # _ \<Rightarrow> Some b | _ \<Rightarrow> None);
                                 rate_value = js_div (to_number_opt num) (to_number_opt den)
                             in (case get_member stream ''nb_frames'' of
                                   Inl e \<Rightarrow> Uncaught e
                                 | Inr frames \<Rightarrow>
                                     (case to_string_opt frames of
                                        Inl e \<Rightarrow> Uncaught e
                                      | Inr text \<Rightarrow>
                                          Resolved \<lparr>frameRate = rate_value,
                                                    totalFrames = parseInt text\<rparr>)))
                        | Inr _ \<Rightarrow> Uncaught TypeError)))))"

section \<open>The host\<close>

text \<open>
  What the programs ask of their environment: whether a directory exists and whether
  creating it throws, the exit code with which an external program run with given
  arguments closes, the parsed standard output of that run, and \<^verbatim>\<open>path.join\<close> (library
  code whose result depends on the platform). The directory tree after a call is not part
  of the model.
\<close>

record host =
  existsSync :: "string \<Rightarrow> bool"
  mkdirSync_throws :: "string \<Rightarrow> bool"
  spawn_code :: "string \<Rightarrow> string list \<Rightarrow> int option"
  spawn_parsed :: "string \<Rightarrow> string list \<Rightarrow> json option"
  path_join :: "string \<Rightarrow> string \<Rightarrow> string"

definition ffprobeArgs :: "string \<Rightarrow> string list" where
  "ffprobeArgs inputPath =
     [''-v'', ''error'', ''-select_streams'', ''v:0'',
      ''-show_entries'', ''stream=nb_frames,r_frame_rate'', ''-of'', ''json'', inputPath]"

definition getVideoInfo :: "host \<Rightarrow> string \<Rightarrow> VideoInfo outcome" where
  "getVideoInfo h inputPath =
     getVideoInfo_close (spawn_code h ''ffprobe'' (ffprobeArgs inputPath))
       (spawn_parsed h ''ffprobe'' (ffprobeArgs inputPath))"

section \<open>The extractors\<close>

text \<open>
  The \<^verbatim>\<open>close\<close> handler of the decoder, the same text in both files
  (\<^verbatim>\<open>video_to_frames.js\<close> lines 98 to 104, \<^verbatim>\<open>server.js\<close> lines 183 to 189):
  \<^verbatim>\<open>
  if (code === 0) { resolve(); }
  else { reject(new Error(`ffmpeg process exited with code ${code}`)); }
  \<close>
\<close>

definition code_to_string :: "int option \<Rightarrow> string" where
  "code_to_string code = (case code of None \<Rightarrow> ''null'' | Some c \<Rightarrow> int_to_string c)"

definition ffmpeg_close :: "int option \<Rightarrow> unit outcome" where
  "ffmpeg_close code =
     (if code = Some 0 then Resolved ()
      else Rejected (Error (''ffmpeg process exited with code '' @ code_to_string code)))"

text \<open>\<^verbatim>\<open>xs.splice(start, 0, a, b)\<close>: insertion at an index, nothing deleted.\<close>

definition splice_insert :: "nat \<Rightarrow> 'a list \<Rightarrow> 'a list \<Rightarrow> 'a list" where
  "splice_insert start new xs = take start xs @ new @ drop start xs"

text \<open>
  \<^verbatim>\<open>video_to_frames.js\<close>, lines 78 to 89: the argument list of the command-line
  extractor. \<open>maxFrames\<close> is \<open>None\<close> when the argument is \<^verbatim>\<open>undefined\<close>.
  \<^verbatim>\<open>
  const ffmpegArgs = ['-i', inputPath, '-vf', `select='not(mod(n,${frameInterval}))'`,
      '-vsync', '0', '-frame_pts', '1', '-f', 'image2', path.join(outputDir, 'frame_%d.jpg')];
  if (maxFrames) { ffmpegArgs.splice(2, 0, '-vframes', maxFrames.toString()); }
  \<close>
\<close>

definition select_filter :: "jsnum \<Rightarrow> string" where
  "select_filter interval =
     ''select='' @ [CHR 0x27] @ ''not(mod(n,'' @ number_to_string interval @ ''))'' @ [CHR 0x27]"

definition ffmpegArgs_cli ::
  "(string \<Rightarrow> string \<Rightarrow> string) \<Rightarrow> string \<Rightarrow> string \<Rightarrow> jsnum \<Rightarrow> jsnum option \<Rightarrow> string list" where
  "ffmpegArgs_cli join inputPath outputDir interval maxFrames =
     (let ffmpegArgs =
            [''-i'', inputPath, ''-vf'', select_filter interval,
             ''-vsync'', ''0'', ''-frame_pts'', ''1'', ''-f'', ''image2'',
             join outputDir ''frame_%d.jpg'']
      in case maxFrames of
           Some cap \<Rightarrow>
             if truthy (Some cap)
             then splice_insert 2 [''-vframes'', number_to_string cap] ffmpegArgs
             else ffmpegArgs
         | None \<Rightarrow> ffmpegArgs)"

text \<open>
  \<^verbatim>\<open>extractFrames\<close> of the command-line tool (lines 71 to 106): an exception of
  \<^verbatim>\<open>mkdirSync\<close> inside the \<^verbatim>\<open>async\<close> function rejects its promise.
\<close>

definition extractFrames_cli ::
  "host \<Rightarrow> string \<Rightarrow> string \<Rightarrow> jsnum \<Rightarrow> jsnum option \<Rightarrow> unit outcome" where
  "extractFrames_cli h inputPath outputDir interval maxFrames =
     (if \<not> existsSync h outputDir \<and> mkdirSync_throws h outputDir then Rejected FsError
      else ffmpeg_close
             (spawn_code h ''ffmpeg''
                (ffmpegArgs_cli (path_join h) inputPath outputDir interval maxFrames)))"

text \<open>
  \<^verbatim>\<open>server.js\<close>, lines 160 to 191: \<^verbatim>\<open>extractFrames(inputPath, outputDir, maxFrames)\<close>.
  \<^verbatim>\<open>
  const ffmpegArgs = ['-i', inputPath, '-vframes', '200', '-vsync', '0',
      '-frame_pts', '1', '-f', 'image2', path.join(outputDir, 'frame_%d.jpg')];
  \<close>
\<close>

definition ffmpegArgs_server ::
  "(string \<Rightarrow> string \<Rightarrow> string) \<Rightarrow> string \<Rightarrow> string \<Rightarrow> jsnum \<Rightarrow> string list" where
  "ffmpegArgs_server join inputPath outputDir maxFrames =
     [''-i'', inputPath, ''-vframes'', ''200'',
      ''-vsync'', ''0'', ''-frame_pts'', ''1'', ''-f'', ''image2'',
      join outputDir ''frame_%d.jpg'']"

definition extractFrames_server :: "host \<Rightarrow> string \<Rightarrow> string \<Rightarrow> jsnum \<Rightarrow> unit outcome" where
  "extractFrames_server h inputPath outputDir maxFrames =
     (if \<not> existsSync h outputDir \<and> mkdirSync_throws h outputDir then Rejected FsError
      else ffmpeg_close
             (spawn_code h ''ffmpeg''
                (ffmpegArgs_server (path_join h) inputPath outputDir maxFrames)))"

section \<open>The two entry points\<close>

record argv =
  argv_input :: string
  argv_output :: string
  argv_percentage :: jsnum
  argv_maxFrames :: "jsnum option"

text \<open>
  How \<^verbatim>\<open>main\<close> ends (lines 108 to 135): normally, through its \<^verbatim>\<open>catch\<close> with
  \<^verbatim>\<open>process.exit(1)\<close>, or by an exception that no \<^verbatim>\<open>catch\<close> sees.
\<close>

datatype ending = Completed | Exit1 jserror | Crashed jserror

definition main :: "host \<Rightarrow> argv \<Rightarrow> ending" where
  "main h a =
     (case getVideoInfo h (argv_input a) of
        Rejected e \<Rightarrow> Exit1 e
      | Uncaught e \<Rightarrow> Crashed e
      | Resolved info \<Rightarrow>
          (let p = plan (totalFrames info) (argv_percentage a) (argv_maxFrames a)
           in case extractFrames_cli h (argv_input a) (argv_output a)
                     (plan_interval p) (Some (plan_max p)) of
                Resolved u \<Rightarrow> Completed
              | Rejected e \<Rightarrow> Exit1 e
              | Uncaught e \<Rightarrow> Crashed e))"

text \<open>
  The upload handler of \<^verbatim>\<open>server.js\<close> after it has answered the client (lines 85 to
  94): it probes the stored file and passes the frame count to \<^verbatim>\<open>extractFrames\<close>.
\<close>

definition OUTPUT :: string where
  "OUTPUT = ''./frames''"

definition upload_extraction :: "host \<Rightarrow> string \<Rightarrow> unit outcome" where
  "upload_extraction h path =
     (case getVideoInfo h path of
        Rejected e \<Rightarrow> Rejected e
      | Uncaught e \<Rightarrow> Uncaught e
      | Resolved info \<Rightarrow> extractFrames_server h path OUTPUT (totalFrames info))"

section \<open>Sample inputs\<close>

text \<open>
  \<^verbatim>\<open>path.join\<close> on a directory name that is already normalised and has no trailing
  separator, on a POSIX platform; used for the concrete examples only.
\<close>

definition slash_join :: "string \<Rightarrow> string \<Rightarrow> string" where
  "slash_join dir file = dir @ ''/'' @ file"

text \<open>
  The payload \<^verbatim>\<open>ffprobe\<close> prints for one video stream, after \<^verbatim>\<open>JSON.parse\<close>:
  \<^verbatim>\<open>{ streams: [ { r_frame_rate: ..., nb_frames: ... } ] }\<close>, where either field may be
  missing (\<open>None\<close>).
\<close>

definition field :: "string \<Rightarrow> json option \<Rightarrow> (string \<times> json) list" where
  "field key v = (case v of None \<Rightarrow> [] | Some j \<Rightarrow> [(key, j)])"

definition ffprobe_payload :: "json option \<Rightarrow> json option \<Rightarrow> json" where
  "ffprobe_payload rate frames =
     JObj [(''streams'', JArr [JObj (field ''r_frame_rate'' rate @ field ''nb_frames'' frames)])]"

section \<open>Properties of rounding\<close>

lemma log2_up_bracket:
  "1 \<le> x \<Longrightarrow> 0 \<le> log2_up x \<and> 2 powi (log2_up x) \<le> x \<and> x < 2 powi (log2_up x + 1)"
proof (induction x rule: log2_up.induct)
  case (1 x)
  show ?case
  proof (cases "2 \<le> x")
    case False
    then show ?thesis using "1.prems" by (simp add: log2_up.simps [of x])
  next
    case True
    then have ih: "0 \<le> log2_up (x / 2) \<and> 2 powi (log2_up (x / 2)) \<le> x / 2
        \<and> x / 2 < 2 powi (log2_up (x / 2) + 1)"
      using "1.IH" by simp
    have eq: "log2_up x = log2_up (x / 2) + 1" using True by (simp add: log2_up.simps [of x])
    have "(2::real) powi (log2_up (x / 2) + 1) = 2 powi (log2_up (x / 2)) * 2"
      by (simp add: power_int_add)
    moreover have "(2::real) powi (log2_up (x / 2) + 1 + 1) = 2 powi (log2_up (x / 2) + 1) * 2"
      by (simp add: power_int_add)
    ultimately show ?thesis using ih eq by simp
  qed
qed

lemma log2_down_bracket:
  "0 < x \<Longrightarrow> x < 1 \<Longrightarrow>
     log2_down x < 0 \<and> 2 powi (log2_down x) \<le> x \<and> x < 2 powi (log2_down x + 1)"
proof (induction x rule: log2_down.induct)
  case (1 x)
  have eq: "log2_down x = log2_down (2 * x) - 1"
    using "1.prems" by (simp add: log2_down.simps [of x])
  show ?case
  proof (cases "2 * x < 1")
    case True
    then have ih: "log2_down (2 * x) < 0 \<and> 2 powi (log2_down (2 * x)) \<le> 2 * x
        \<and> 2 * x < 2 powi (log2_down (2 * x) + 1)"
      using "1.IH" "1.prems" by simp
    have "(2::real) powi (log2_down (2 * x)) = 2 powi (log2_down (2 * x) - 1) * 2"
      using power_int_add [of "2::real" "log2_down (2 * x) - 1" 1] by simp
    moreover have "(2::real) powi (log2_down (2 * x) + 1) = 2 powi (log2_down (2 * x)) * 2"
      by (simp add: power_int_add)
    ultimately show ?thesis using ih eq by simp
  next
    case False
    then have "log2_down (2 * x) = 0" by (simp add: log2_down.simps [of "2 * x"])
    then have "log2_down x = - 1" using eq by simp
    then show ?thesis using False "1.prems" by simp
  qed
qed

lemma ilog2_bracket:
  assumes "0 < x"
  shows "2 powi (ilog2 x) \<le> x \<and> x < 2 powi (ilog2 x + 1)"
  using assms log2_up_bracket [of x] log2_down_bracket [of x]
  by (cases "x < 1") (simp_all add: ilog2_def)

lemma ilog2_nonneg: "1 \<le> x \<Longrightarrow> 0 \<le> ilog2 x"
  using log2_up_bracket [of x] by (simp add: ilog2_def)

lemma rhe_of_int: "round_half_even (of_int m) = m"
  by (simp add: round_half_even_def)

lemma rhe_lower: "of_int m \<le> y \<Longrightarrow> m \<le> round_half_even y"
proof -
  assume "of_int m \<le> y"
  then have "m \<le> \<lfloor>y\<rfloor>" by (simp add: le_floor_iff)
  then show ?thesis by (auto simp: round_half_even_def Let_def)
qed

lemma number_value_pos_lower:
  assumes "of_int m * 2 powi (max (ilog2 x) (- 1022) - 52) \<le> x"
  shows "number_value_pos x = PosInf
       \<or> (\<exists>r. number_value_pos x = Num r \<and> of_int m * 2 powi (max (ilog2 x) (- 1022) - 52) \<le> r)"
proof -
  let ?q = "(2::real) powi (max (ilog2 x) (- 1022) - 52)"
  have q: "0 < ?q" by simp
  have "of_int m \<le> x / ?q" using assms q by (simp add: pos_le_divide_eq)
  then have "m \<le> round_half_even (x / ?q)" by (rule rhe_lower)
  then have "of_int m * ?q \<le> of_int (round_half_even (x / ?q)) * ?q"
    using q by (simp add: mult_right_mono)
  then show ?thesis by (auto simp: number_value_pos_def Let_def)
qed

lemma normal_grid:
  assumes "- 1022 \<le> ilog2 x"
  shows "of_int (2 ^ 52) * 2 powi (max (ilog2 x) (- 1022) - 52) = (2::real) powi ilog2 x"
proof -
  have "(2::real) powi ilog2 x = 2 powi 52 * 2 powi (ilog2 x - 52)"
    using power_int_add [of "2::real" 52 "ilog2 x - 52"] by simp
  then show ?thesis using assms by simp
qed

lemma number_value_pos_normal:
  assumes "0 < x" and "- 1022 \<le> ilog2 x"
  shows "number_value_pos x = PosInf
       \<or> (\<exists>r. number_value_pos x = Num r \<and> 2 powi ilog2 x \<le> r)"
proof -
  have "2 powi ilog2 x \<le> x" using ilog2_bracket [OF assms(1)] by simp
  then have "of_int (2 ^ 52) * 2 powi (max (ilog2 x) (- 1022) - 52) \<le> x"
    using normal_grid [OF assms(2)] by simp
  from number_value_pos_lower [OF this] normal_grid [OF assms(2)] show ?thesis by simp
qed

lemma number_value_pos_ge_one:
  assumes "1 \<le> x"
  shows "number_value_pos x = PosInf \<or> (\<exists>r. number_value_pos x = Num r \<and> 1 \<le> r)"
proof -
  have e0: "0 \<le> ilog2 x" using assms by (rule ilog2_nonneg)
  have "number_value_pos x = PosInf
       \<or> (\<exists>r. number_value_pos x = Num r \<and> (2::real) powi ilog2 x \<le> r)"
    using number_value_pos_normal [of x] assms e0 by simp
  moreover have "(1::real) \<le> 2 powi ilog2 x" using e0 by simp
  ultimately show ?thesis by (meson order.trans)
qed

lemma number_value_pos_positive:
  assumes "2 powi (- 1074) \<le> x"
  shows "number_value_pos x = PosInf \<or> (\<exists>r. number_value_pos x = Num r \<and> 0 < r)"
proof -
  have pos: "0 < x" using assms zero_less_power_int [of "2::real" "- 1074"] by linarith
  show ?thesis
  proof (cases "- 1022 \<le> ilog2 x")
    case True
    have "number_value_pos x = PosInf
         \<or> (\<exists>r. number_value_pos x = Num r \<and> (2::real) powi ilog2 x \<le> r)"
      using number_value_pos_normal [OF pos True] .
    moreover have "(0::real) < 2 powi ilog2 x" by simp
    ultimately show ?thesis by (meson order.strict_trans2)
  next
    case False
    then have m: "max (ilog2 x) (- 1022) = - 1022" by simp
    have "of_int 1 * 2 powi (max (ilog2 x) (- 1022) - 52) \<le> x" using assms m by simp
    from number_value_pos_lower [OF this] m
    have "number_value_pos x = PosInf
         \<or> (\<exists>r. number_value_pos x = Num r \<and> (2::real) powi (- 1074) \<le> r)" by simp
    moreover have "(0::real) < 2 powi (- 1074)" by simp
    ultimately show ?thesis by (meson order.strict_trans2)
  qed
qed

lemma number_value_pos_finite: "number_value_pos x = Num r \<Longrightarrow> r < 2 ^ 1024"
  by (auto simp: number_value_pos_def Let_def split: if_splits)

lemma number_value_pos_overflow:
  assumes "2 ^ 1024 \<le> x"
  shows "number_value_pos x = PosInf"
proof -
  have "(1::real) \<le> 2 ^ 1024" by simp
  then have x1: "1 \<le> x" using assms by linarith
  then have pos: "0 < x" by simp
  have e0: "0 \<le> ilog2 x" using x1 by (rule ilog2_nonneg)
  have b: "x < 2 powi (ilog2 x + 1)" using ilog2_bracket [OF pos] by simp
  have "(2::real) powi 1024 < 2 powi (ilog2 x + 1)" using assms b by simp
  then have "1024 < ilog2 x + 1"
    using power_int_increasing [of "ilog2 x + 1" 1024 "2::real"] by (cases "1024 < ilog2 x + 1") auto
  then have big: "(2::real) powi 1024 \<le> 2 powi ilog2 x"
    by (intro power_int_increasing) auto
  have "number_value_pos x = PosInf
         \<or> (\<exists>r. number_value_pos x = Num r \<and> (2::real) powi ilog2 x \<le> r)"
    using number_value_pos_normal [of x] pos e0 by simp
  then show ?thesis
  proof
    assume "number_value_pos x = PosInf" then show ?thesis .
  next
    assume "\<exists>r. number_value_pos x = Num r \<and> (2::real) powi ilog2 x \<le> r"
    then obtain r where r: "number_value_pos x = Num r" "(2::real) powi ilog2 x \<le> r" by blast
    then have "r < 2 ^ 1024" using number_value_pos_finite by blast
    then show ?thesis using r(2) big by simp
  qed
qed

lemma number_value_pos_exact:
  assumes "x / 2 powi (max (ilog2 x) (- 1022) - 52) = of_int n" and "x < 2 ^ 1024"
  shows "number_value_pos x = Num x"
proof -
  let ?q = "(2::real) powi (max (ilog2 x) (- 1022) - 52)"
  have q: "?q \<noteq> 0" by simp
  have "of_int n * ?q = x" using assms(1) q by (simp add: field_simps)
  then show ?thesis using assms by (simp add: number_value_pos_def Let_def rhe_of_int)
qed

lemma number_value_pos_int:
  assumes "0 < c" and "c \<le> 2 ^ 53"
  shows "number_value_pos (of_int c) = Num (of_int c)"
proof -
  let ?x = "of_int c :: real"
  have x1: "1 \<le> ?x" using assms(1) by simp
  have pos: "0 < ?x" using assms(1) by simp
  have e0: "0 \<le> ilog2 ?x" using x1 by (rule ilog2_nonneg)
  then have m: "max (ilog2 ?x) (- 1022) = ilog2 ?x" by simp
  have b: "2 powi ilog2 ?x \<le> ?x" using ilog2_bracket [OF pos] by simp
  have xle: "?x \<le> 2 powi 53"
    using assms(2) by (metis of_int_le_iff of_int_numeral of_int_power power_int_numeral)
  have "(2::real) powi ilog2 ?x \<le> 2 powi 53" using b xle by linarith
  then have e53: "ilog2 ?x \<le> 53"
    using power_int_strict_increasing [of 53 "ilog2 ?x" "2::real"] by (cases "ilog2 ?x \<le> 53") auto
  have lt: "?x < 2 ^ 1024"
  proof -
    have "(2::real) powi 53 < 2 powi 1024" by (intro power_int_strict_increasing) auto
    then show ?thesis using xle by simp
  qed
  show ?thesis
  proof (cases "ilog2 ?x \<le> 52")
    case True
    then have "(2::real) powi (52 - ilog2 ?x) = 2 ^ nat (52 - ilog2 ?x)"
      by (simp add: power_int_def)
    moreover have "?x / 2 powi (ilog2 ?x - 52) = ?x * 2 powi (52 - ilog2 ?x)"
      using power_int_minus [of "2::real" "ilog2 ?x - 52"] by (simp add: divide_inverse)
    ultimately have "?x / 2 powi (max (ilog2 ?x) (- 1022) - 52)
        = of_int (c * 2 ^ nat (52 - ilog2 ?x))"
      using m by simp
    then show ?thesis using lt by (rule number_value_pos_exact)
  next
    case False
    then have e: "ilog2 ?x = 53" using e53 by simp
    then have "?x = 2 powi 53" using b xle by simp
    then have "?x / 2 powi (max (ilog2 ?x) (- 1022) - 52) = of_int (2 ^ 52)"
      using m e by simp
    then show ?thesis using lt by (rule number_value_pos_exact)
  qed
qed

lemma number_value_nat:
  assumes "n \<le> 2 ^ 53"
  shows "number_value (real n) = Num (real n)"
proof (cases "n = 0")
  case True
  then show ?thesis by (simp add: number_value_def)
next
  case False
  then have "0 < int n" by simp
  moreover have "int n \<le> 2 ^ 53" using assms by (metis of_nat_le_iff of_nat_numeral of_nat_power)
  ultimately have "number_value_pos (of_int (int n)) = Num (of_int (int n))"
    by (rule number_value_pos_int)
  then show ?thesis using False by (simp add: number_value_def)
qed

lemma number_value_not_NaN: "number_value x \<noteq> NaN"
proof -
  have "number_value_pos y \<noteq> NaN" "js_neg (number_value_pos y) \<noteq> NaN" for y
    by (auto simp: number_value_pos_def Let_def)
  then show ?thesis by (simp add: number_value_def)
qed

lemma number_value_ge_one:
  assumes "1 \<le> x"
  shows "number_value x = PosInf \<or> (\<exists>r. number_value x = Num r \<and> 1 \<le> r)"
  using assms number_value_pos_ge_one [OF assms] by (simp add: number_value_def)

lemma number_value_positive:
  assumes "2 powi (- 1074) \<le> x"
  shows "number_value x = PosInf \<or> (\<exists>r. number_value x = Num r \<and> 0 < r)"
proof -
  have "0 < x" using assms zero_less_power_int [of "2::real" "- 1074"] by linarith
  then show ?thesis using number_value_pos_positive [OF assms] by (simp add: number_value_def)
qed

lemma number_value_pos_cases: "number_value_pos x = PosInf \<or> (\<exists>r. number_value_pos x = Num r)"
  by (simp add: number_value_pos_def Let_def)

section \<open>Properties of the planner\<close>

lemmas number_eval = number_value_def number_value_pos_def ilog2_def round_half_even_def Let_def
  log2_up.simps log2_down.simps js_div_def is_zero_def is_infinite_def signed_zero_def
  signed_infinity_def Math_max_def Math_min_def js_le_def

lemma quotient_cases:
  assumes "0 < p" and "p \<le> 100"
  shows "js_div (Num 100) (Num p) = PosInf
       \<or> (\<exists>q. 1 \<le> q \<and> q < 2 ^ 1024 \<and> js_div (Num 100) (Num p) = Num q)"
proof -
  have x: "1 \<le> 100 / p" using assms by simp
  have eq: "js_div (Num 100) (Num p) = number_value_pos (100 / p)"
    using assms by (simp add: js_div_def is_zero_def is_infinite_def number_value_def)
  from number_value_pos_ge_one [OF x] show ?thesis
  proof
    assume "number_value_pos (100 / p) = PosInf"
    then show ?thesis using eq by simp
  next
    assume "\<exists>r. number_value_pos (100 / p) = Num r \<and> 1 \<le> r"
    then obtain r where r: "number_value_pos (100 / p) = Num r" "1 \<le> r" by blast
    then have "r < 2 ^ 1024" using number_value_pos_finite by blast
    then show ?thesis using r eq by auto
  qed
qed

lemma Math_max_one_int: "1 \<le> k \<Longrightarrow> Math_max (Num 1) (Num (of_int k)) = Num (of_int k)"
proof (cases "k = 1")
  case True
  then show ?thesis by (simp add: Math_max_def)
next
  case False
  assume "1 \<le> k"
  then have "(1::real) < of_int k" using False by simp
  then show ?thesis by (simp add: Math_max_def)
qed

lemma interval_of_quotient:
  assumes "1 \<le> q"
  shows "Math_max (Num 1) (Math_round (Num q)) = Num (of_int (max 1 (round q)))"
proof -
  have k: "1 \<le> \<lfloor>q + 1 / 2\<rfloor>" using assms by linarith
  then have "Math_round (Num q) = Num (of_int \<lfloor>q + 1 / 2\<rfloor>)" by simp
  moreover have "Math_max (Num 1) (Num (of_int \<lfloor>q + 1 / 2\<rfloor>)) = Num (of_int \<lfloor>q + 1 / 2\<rfloor>)"
    using k by (rule Math_max_one_int)
  moreover have "max 1 (round q) = \<lfloor>q + 1 / 2\<rfloor>" using k by (simp add: round_def)
  ultimately show ?thesis by simp
qed

lemma frameInterval_cases:
  assumes "0 < p" and "p \<le> 100"
  shows "(js_div (Num 100) (Num p) = PosInf \<and> frameInterval (Num p) = PosInf)
       \<or> (\<exists>q. 1 \<le> q \<and> q < 2 ^ 1024 \<and> js_div (Num 100) (Num p) = Num q
              \<and> frameInterval (Num p) = Num (of_int (max 1 (round q))))"
proof -
  from quotient_cases [OF assms] show ?thesis
  proof
    assume "js_div (Num 100) (Num p) = PosInf"
    then show ?thesis by (simp add: frameInterval_def Math_max_def)
  next
    assume "\<exists>q. 1 \<le> q \<and> q < 2 ^ 1024 \<and> js_div (Num 100) (Num p) = Num q"
    then obtain q where q: "1 \<le> q" "q < 2 ^ 1024" "js_div (Num 100) (Num p) = Num q" by blast
    then have "frameInterval (Num p) = Num (of_int (max 1 (round q)))"
      using interval_of_quotient [OF q(1)] by (simp add: frameInterval_def)
    then show ?thesis using q by blast
  qed
qed

lemma frameInterval_shape:
  assumes "0 < p" and "p \<le> 100"
  shows "frameInterval (Num p) = PosInf
       \<or> (\<exists>y. 1 \<le> y \<and> y \<le> 2 ^ 1025 \<and> frameInterval (Num p) = Num y)"
proof -
  from frameInterval_cases [OF assms] show ?thesis
  proof
    assume "js_div (Num 100) (Num p) = PosInf \<and> frameInterval (Num p) = PosInf"
    then show ?thesis by simp
  next
    assume "\<exists>q. 1 \<le> q \<and> q < 2 ^ 1024 \<and> js_div (Num 100) (Num p) = Num q
              \<and> frameInterval (Num p) = Num (of_int (max 1 (round q)))"
    then obtain q :: real where q: "1 \<le> q" "q < 2 ^ 1024"
      "frameInterval (Num p) = Num (of_int (max 1 (round q)))" by blast
    have k: "1 \<le> \<lfloor>q + 1 / 2\<rfloor>" using q(1) by linarith
    then have m: "max 1 (round q) = \<lfloor>q + 1 / 2\<rfloor>" by (simp add: round_def)
    have "of_int \<lfloor>q + 1 / 2\<rfloor> \<le> q + 1 / 2" by (rule of_int_floor_le)
    also have "\<dots> \<le> 2 ^ 1024 + 2 ^ 1024"
    proof -
      have "(1::real) \<le> 2 ^ 1024" by simp
      then show ?thesis using q(2) by linarith
    qed
    also have "\<dots> = (2::real) ^ 1025" by simp
    finally have "of_int (max 1 (round q)) \<le> (2::real) ^ 1025" using m by simp
    moreover have "(1::real) \<le> of_int (max 1 (round q))" by simp
    ultimately show ?thesis using q(3) by blast
  qed
qed

lemma truthy_Some_iff: "truthy (Some c) \<longleftrightarrow> c \<noteq> Num 0 \<and> c \<noteq> NegZero \<and> c \<noteq> NaN"
  by (cases c) simp_all

lemma falsy_cases:
  "\<not> truthy m \<longleftrightarrow> m = None \<or> m = Some (Num 0) \<or> m = Some NegZero \<or> m = Some NaN"
  by (cases m) (auto simp: truthy_Some_iff)

lemma effectiveMaxFrames_cases:
  "effectiveMaxFrames m t i =
     (if truthy m then Math_min (the m) (Math_ceil (js_div t i)) else Math_ceil (js_div t i))"
  by (cases m) (simp_all add: effectiveMaxFrames_def)

lemma Math_ceil_not_NaN: "x \<noteq> NaN \<Longrightarrow> Math_ceil x \<noteq> NaN"
  by (cases x) simp_all

lemma uncapped_not_NaN:
  assumes "i = PosInf \<or> (\<exists>y. 1 \<le> y \<and> i = Num y)"
  shows "Math_ceil (js_div (Num t) i) \<noteq> NaN"
proof -
  have "js_div (Num t) i \<noteq> NaN"
    using assms number_value_not_NaN
    by (auto simp: js_div_def is_zero_def is_infinite_def signed_zero_def signed_infinity_def)
  then show ?thesis by (rule Math_ceil_not_NaN)
qed

lemma Math_min_le_left: "c \<noteq> NaN \<Longrightarrow> u \<noteq> NaN \<Longrightarrow> js_le (Math_min c u) c"
  by (cases c; cases u) (auto simp: Math_min_def js_le_def)

lemma Math_min_ge_one:
  "js_le (Num 1) c \<Longrightarrow> js_le (Num 1) u \<Longrightarrow> js_le (Num 1) (Math_min c u)"
  by (cases c; cases u) (auto simp: Math_min_def js_le_def split: if_splits)

lemma uncapped_ge_one:
  assumes "1 \<le> t" and "1 \<le> y" and "y \<le> 2 ^ 1025"
  shows "js_le (Num 1) (Math_ceil (js_div (Num t) (Num y)))"
proof -
  have eq: "js_div (Num t) (Num y) = number_value (t / y)"
    using assms by (simp add: js_div_def is_zero_def is_infinite_def)
  have "1 / 2 ^ 1025 \<le> 1 / y" using assms by (simp add: frac_le)
  also have "\<dots> \<le> t / y" using assms by (simp add: divide_right_mono)
  finally have "1 / 2 ^ 1025 \<le> t / y" .
  moreover have "(2::real) powi (- 1074) \<le> 1 / 2 ^ 1025"
  proof -
    have "(2::real) powi (- 1074) \<le> 2 powi (- 1025)" by (intro power_int_increasing) auto
    then show ?thesis by (simp add: power_int_minus_divide)
  qed
  ultimately have "(2::real) powi (- 1074) \<le> t / y" by linarith
  from number_value_positive [OF this] show ?thesis
  proof
    assume "number_value (t / y) = PosInf"
    then show ?thesis using eq by (simp add: js_le_def)
  next
    assume "\<exists>r. number_value (t / y) = Num r \<and> 0 < r"
    then obtain r where r: "number_value (t / y) = Num r" "0 < r" by blast
    then have "1 \<le> \<lceil>r\<rceil>" by linarith
    then show ?thesis using eq r by (simp add: js_le_def)
  qed
qed

text \<open>The worked examples of the specification.\<close>

lemma planner_examples:
  "plan (Num 1000) (Num 100) None = \<lparr>plan_interval = Num 1, plan_max = Num 1000\<rparr>"
  "plan (Num 1000) (Num 10) None = \<lparr>plan_interval = Num 10, plan_max = Num 100\<rparr>"
  "plan (Num 1000) (Num 10) (Some (Num 50)) = \<lparr>plan_interval = Num 10, plan_max = Num 50\<rparr>"
  "plan (Num 30) (Num 25) None = \<lparr>plan_interval = Num 4, plan_max = Num 8\<rparr>"
  by (simp_all add: plan_def frameInterval_def effectiveMaxFrames_def number_eval)

text \<open>
  Two percentages where rounding shows. The binary64 value written
  \<^verbatim>\<open>66.66666666666667\<close> is \<open>4691249611844267 / 2\<^sup>4\<^sup>6\<close>; the quotient of 100 by it rounds
  to \<open>1.5\<close>, so the interval is 2. The one written \<^verbatim>\<open>1e-307\<close> is
  \<open>5060056332682765 / 2\<^sup>1\<^sup>0\<^sup>7\<^sup>2\<close>; the quotient overflows and the interval is \<open>Infinity\<close>.
\<close>

lemma frameInterval_rounded_quotient:
  "frameInterval (Num (4691249611844267 / 2 ^ 46)) = Num 2"
  by (simp add: frameInterval_def number_eval)

lemma quotient_overflow:
  "js_div (Num 100) (Num (5060056332682765 / 2 ^ 1072)) = PosInf"
proof -
  have "(2::real) ^ 1024 \<le> 100 / (5060056332682765 / 2 ^ 1072)" by simp
  then have "number_value_pos (100 / (5060056332682765 / 2 ^ 1072)) = PosInf"
    by (rule number_value_pos_overflow)
  then show ?thesis by (simp add: js_div_def is_zero_def is_infinite_def number_value_def)
qed

lemma frameInterval_overflow:
  "frameInterval (Num (5060056332682765 / 2 ^ 1072)) = PosInf"
  using quotient_overflow by (simp add: frameInterval_def Math_max_def)

subsection \<open>The frame interval\<close>



subsection \<open>The effective maximum\<close>

text \<open>
  C1, as stated, fails: \<^verbatim>\<open>main\<close> tests the cap for truthiness, so a cap of \<open>0\<close> given on
  the command line is treated like no cap. With 1000 frames and 100 percent the effective
  maximum is 1000, not \<open>min(0, 1000) = 0\<close>, and it exceeds the cap.
\<close>

theorem effectiveMaxFrames_zero_cap_counterexample:
  "effectiveMaxFrames (Some (Num 0)) (Num 1000) (frameInterval (Num 100)) = Num 1000
   \<and> Math_min (Num 0) (Math_ceil (js_div (Num 1000) (frameInterval (Num 100)))) = Num 0
   \<and> \<not> js_le (effectiveMaxFrames (Some (Num 0)) (Num 1000) (frameInterval (Num 100))) (Num 0)"
  by (simp add: effectiveMaxFrames_def frameInterval_def number_eval)

text \<open>
  C1, amended. For every frame count \<open>t \<ge> 0\<close> and percentage in \<open>(0, 100]\<close>: with a cap
  that is a number other than \<open>0\<close>, \<open>-0\<close> and \<open>NaN\<close>, the effective maximum is
  \<open>min(cap, ceil(t / frameInterval))\<close> and is at most the cap; with no cap, or a cap of
  \<open>0\<close>, \<open>-0\<close> or \<open>NaN\<close>, it is \<open>ceil(t / frameInterval)\<close>. The quotient, \<open>ceil\<close> and \<open>min\<close>
  are those of JavaScript, and \<open>ceil(t / frameInterval)\<close> is never \<open>NaN\<close>.
\<close>

theorem effectiveMaxFrames_capped:
  assumes "0 \<le> t" and "0 < p" and "p \<le> 100"
  shows "(cap \<noteq> Num 0 \<and> cap \<noteq> NegZero \<and> cap \<noteq> NaN \<longrightarrow>
            effectiveMaxFrames (Some cap) (Num t) (frameInterval (Num p))
              = Math_min cap (Math_ceil (js_div (Num t) (frameInterval (Num p))))
          \<and> js_le (effectiveMaxFrames (Some cap) (Num t) (frameInterval (Num p))) cap)
       \<and> (m = None \<or> m = Some (Num 0) \<or> m = Some NegZero \<or> m = Some NaN \<longrightarrow>
            effectiveMaxFrames m (Num t) (frameInterval (Num p))
              = Math_ceil (js_div (Num t) (frameInterval (Num p))))
       \<and> Math_ceil (js_div (Num t) (frameInterval (Num p))) \<noteq> NaN"
proof -
  have shape: "frameInterval (Num p) = PosInf \<or> (\<exists>y. 1 \<le> y \<and> frameInterval (Num p) = Num y)"
    using frameInterval_shape [OF assms(2,3)] by blast
  have nn: "Math_ceil (js_div (Num t) (frameInterval (Num p))) \<noteq> NaN"
    using shape by (rule uncapped_not_NaN)
  have capped: "effectiveMaxFrames (Some cap) (Num t) (frameInterval (Num p))
              = Math_min cap (Math_ceil (js_div (Num t) (frameInterval (Num p))))"
    if "cap \<noteq> Num 0" and "cap \<noteq> NegZero" and "cap \<noteq> NaN"
    using that by (simp add: effectiveMaxFrames_cases truthy_Some_iff)
  have le: "js_le (effectiveMaxFrames (Some cap) (Num t) (frameInterval (Num p))) cap"
    if "cap \<noteq> Num 0" and "cap \<noteq> NegZero" and "cap \<noteq> NaN"
    using capped [OF that] Math_min_le_left [OF that(3) nn] by simp
  have none: "effectiveMaxFrames m (Num t) (frameInterval (Num p))
              = Math_ceil (js_div (Num t) (frameInterval (Num p)))"
    if "m = None \<or> m = Some (Num 0) \<or> m = Some NegZero \<or> m = Some NaN"
  proof -
    have "\<not> truthy m" using that by (simp add: falsy_cases)
    then show ?thesis by (simp add: effectiveMaxFrames_cases)
  qed
  from capped le none nn show ?thesis by blast
qed

theorem effectiveMaxFrames_capped_witness:
  "(0::real) \<le> 1000 \<and> (0::real) < 10 \<and> (10::real) \<le> 100
   \<and> Num 50 \<noteq> Num 0 \<and> Num 50 \<noteq> NegZero \<and> Num 50 \<noteq> NaN
   \<and> effectiveMaxFrames (Some (Num 50)) (Num 1000) (frameInterval (Num 10)) = Num 50
   \<and> js_le (effectiveMaxFrames (Some (Num 50)) (Num 1000) (frameInterval (Num 10))) (Num 50)
   \<and> effectiveMaxFrames None (Num 1000) (frameInterval (Num 10)) = Num 100"
  using effectiveMaxFrames_capped [of 1000 10 "Num 50" None]
  by (simp add: frameInterval_def number_eval)

subsection \<open>The invariants of the plan\<close>

text \<open>
  C7, as stated, fails in two of its three parts. A cap of \<open>0\<close> is treated like no cap, so
  with 10 frames at 100 percent the effective maximum is 10 and exceeds the cap. A cap
  below 1, such as \<open>-5\<close>, is taken as it is, so the effective maximum is below 1 although
  the video has frames. And for a percentage so small that the quotient of 100 by it
  overflows, such as \<^verbatim>\<open>1e-307\<close>, the interval is \<open>Infinity\<close> and the effective maximum of
  a video of 1000 frames is 0.
\<close>

theorem plan_invariants_counterexample:
  "plan_max (plan (Num 10) (Num 100) (Some (Num 0))) = Num 10
   \<and> \<not> js_le (plan_max (plan (Num 10) (Num 100) (Some (Num 0)))) (Num 0)
   \<and> plan_max (plan (Num 10) (Num 100) (Some (Num (- 5)))) = Num (- 5)
   \<and> \<not> js_le (Num 1) (plan_max (plan (Num 10) (Num 100) (Some (Num (- 5)))))
   \<and> plan_max (plan (Num 1000) (Num (5060056332682765 / 2 ^ 1072)) None) = Num 0
   \<and> \<not> js_le (Num 1) (plan_max (plan (Num 1000) (Num (5060056332682765 / 2 ^ 1072)) None))"
proof -
  have a: "plan_max (plan (Num 10) (Num 100) (Some (Num 0))) = Num 10"
    by (simp add: plan_def effectiveMaxFrames_def frameInterval_def number_eval)
  have b: "plan_max (plan (Num 10) (Num 100) (Some (Num (- 5)))) = Num (- 5)"
    by (simp add: plan_def effectiveMaxFrames_def frameInterval_def number_eval)
  have c: "plan_max (plan (Num 1000) (Num (5060056332682765 / 2 ^ 1072)) None) = Num 0"
    using frameInterval_overflow
    by (simp add: plan_def effectiveMaxFrames_def js_div_def is_infinite_def signed_zero_def)
  show ?thesis unfolding a b c by (simp add: js_le_def)
qed

text \<open>
  C7, amended. For every plan computed from a frame count \<open>t \<ge> 0\<close>, a percentage in
  \<open>(0, 100]\<close> and an optional cap: the interval is at least 1; the effective maximum is at
  least 1 when the frame count is at least 1, the interval is finite (the quotient of 100
  by the percentage does not overflow) and the cap is absent, \<open>0\<close>, \<open>-0\<close>, \<open>NaN\<close> or at
  least 1; and the effective maximum is at most the cap when the cap is a number other
  than \<open>0\<close>, \<open>-0\<close> and \<open>NaN\<close>.
\<close>

theorem plan_invariants:
  assumes "0 \<le> t" and "0 < p" and "p \<le> 100"
  shows "js_le (Num 1) (plan_interval (plan (Num t) (Num p) m))
       \<and> (1 \<le> t \<and> plan_interval (plan (Num t) (Num p) m) \<noteq> PosInf
            \<and> (m = None \<or> m = Some (Num 0) \<or> m = Some NegZero \<or> m = Some NaN
                \<or> (\<exists>c. m = Some c \<and> js_le (Num 1) c))
            \<longrightarrow> js_le (Num 1) (plan_max (plan (Num t) (Num p) m)))
       \<and> (\<forall>c. m = Some c \<and> c \<noteq> Num 0 \<and> c \<noteq> NegZero \<and> c \<noteq> NaN
            \<longrightarrow> js_le (plan_max (plan (Num t) (Num p) m)) c)"
proof -
  let ?i = "frameInterval (Num p)"
  let ?u = "Math_ceil (js_div (Num t) ?i)"
  have pi: "plan_interval (plan (Num t) (Num p) m) = ?i" by (simp add: plan_def Let_def)
  have pm: "plan_max (plan (Num t) (Num p) m)
              = (if truthy m then Math_min (the m) ?u else ?u)"
    by (simp add: plan_def Let_def effectiveMaxFrames_cases)
  have shape: "?i = PosInf \<or> (\<exists>y. 1 \<le> y \<and> y \<le> 2 ^ 1025 \<and> ?i = Num y)"
    using frameInterval_shape [OF assms(2,3)] .
  have nn: "?u \<noteq> NaN" using shape by (intro uncapped_not_NaN) blast
  have first: "js_le (Num 1) (plan_interval (plan (Num t) (Num p) m))"
    using shape pi by (auto simp: js_le_def)
  have second: "js_le (Num 1) (plan_max (plan (Num t) (Num p) m))"
    if t: "1 \<le> t" and fin: "plan_interval (plan (Num t) (Num p) m) \<noteq> PosInf"
      and m: "m = None \<or> m = Some (Num 0) \<or> m = Some NegZero \<or> m = Some NaN
                \<or> (\<exists>c. m = Some c \<and> js_le (Num 1) c)"
  proof -
    obtain y where y: "1 \<le> y" "y \<le> 2 ^ 1025" "?i = Num y" using shape fin pi by auto
    have u: "js_le (Num 1) ?u" using uncapped_ge_one [OF t y(1,2)] y(3) by simp
    show ?thesis
    proof (cases "truthy m")
      case False
      then show ?thesis using u pm by simp
    next
      case True
      with m obtain c where "m = Some c" and "js_le (Num 1) c" by (auto simp: falsy_cases)
      then show ?thesis using True u pm Math_min_ge_one by simp
    qed
  qed
  have third: "js_le (plan_max (plan (Num t) (Num p) m)) c"
    if "m = Some c" and "c \<noteq> Num 0" and "c \<noteq> NegZero" and "c \<noteq> NaN" for c
    using that pm Math_min_le_left [OF that(4) nn] by (simp add: truthy_Some_iff)
  from first second third show ?thesis by blast
qed

theorem plan_invariants_witness:
  "(0::real) \<le> 30 \<and> (0::real) < 25 \<and> (25::real) \<le> 100 \<and> (1::real) \<le> 30
   \<and> js_le (Num 1) (Num 5) \<and> Num 5 \<noteq> Num 0 \<and> Num 5 \<noteq> NegZero \<and> Num 5 \<noteq> NaN
   \<and> plan (Num 30) (Num 25) (Some (Num 5)) = \<lparr>plan_interval = Num 4, plan_max = Num 5\<rparr>
   \<and> js_le (Num 1) (plan_interval (plan (Num 30) (Num 25) (Some (Num 5))))
   \<and> js_le (Num 1) (plan_max (plan (Num 30) (Num 25) (Some (Num 5))))
   \<and> js_le (plan_max (plan (Num 30) (Num 25) (Some (Num 5)))) (Num 5)"
  using plan_invariants [of 30 25 "Some (Num 5)"]
  by (simp add: plan_def effectiveMaxFrames_def frameInterval_def number_eval)

section \<open>Decimal numerals\<close>

lemmas string_eval = positive_to_string_def dec_exp_def dec_up.simps dec_down.simps
  digits_for_def shortest_digits.simps nat_digits.simps zeros.simps int_to_string_def

lemma digit_val_decimal: "d < 10 \<Longrightarrow> digit_val 10 (''0123456789'' ! d) = Some d"
proof -
  assume "d < 10"
  then have "d \<in> {0, 1, 2, 3, 4, 5, 6, 7, 8, 9}" by auto
  then show ?thesis by (auto simp: digit_val_def)
qed

lemma is_digit_decimal: "d < 10 \<Longrightarrow> is_digit 10 (''0123456789'' ! d)"
  by (simp add: is_digit_def digit_val_decimal)

lemma digits_value_snoc:
  "digits_value r (xs @ [c]) = digits_value r xs * r + (case digit_val r c of Some d \<Rightarrow> d | None \<Rightarrow> 0)"
  by (simp add: digits_value_def)

lemma digits_value_nat_digits: "digits_value 10 (nat_digits n) = n"
proof (induction n rule: nat_digits.induct)
  case (1 n)
  show ?case
  proof (cases "n < 10")
    case True
    then show ?thesis
      using digits_value_snoc [of 10 "[]" "''0123456789'' ! n"]
      by (simp add: nat_digits.simps [of n] digit_val_decimal digits_value_def)
  next
    case False
    then have "digits_value 10 (nat_digits (n div 10)) = n div 10" using "1" by simp
    then show ?thesis using False
      by (simp add: nat_digits.simps [of n] digits_value_snoc digit_val_decimal)
  qed
qed

lemma nat_digits_all_digits: "list_all (is_digit 10) (nat_digits n)"
proof (induction n rule: nat_digits.induct)
  case (1 n)
  show ?case
  proof (cases "n < 10")
    case True
    then show ?thesis by (simp add: nat_digits.simps [of n] is_digit_decimal)
  next
    case False
    then have "list_all (is_digit 10) (nat_digits (n div 10))" using "1" by simp
    then show ?thesis using False
      by (simp add: nat_digits.simps [of n] is_digit_decimal)
  qed
qed

lemma nat_digits_nonempty: "nat_digits n \<noteq> []"
  by (simp add: nat_digits.simps [of n])

lemma nat_digits_inj: "nat_digits a = nat_digits b \<Longrightarrow> a = b"
proof -
  assume "nat_digits a = nat_digits b"
  then have "digits_value 10 (nat_digits a) = digits_value 10 (nat_digits b)"
    by (rule arg_cong)
  then show ?thesis by (simp only: digits_value_nat_digits)
qed

lemma nat_digits_no_minus: "nat_digits a \<noteq> CHR ''-'' # s"
proof
  assume "nat_digits a = CHR ''-'' # s"
  then have "is_digit 10 CHR ''-''" using nat_digits_all_digits [of a] by simp
  then show False by (simp add: is_digit_def digit_val_def)
qed

lemma int_to_string_inj: "int_to_string a = int_to_string b \<Longrightarrow> a = b"
proof -
  assume eq: "int_to_string a = int_to_string b"
  show ?thesis
  proof (cases "a < 0"; cases "b < 0")
    assume "a < 0" "b < 0"
    then have "nat (- a) = nat (- b)" using eq nat_digits_inj by (simp add: int_to_string_def)
    then show ?thesis using \<open>a < 0\<close> \<open>b < 0\<close> by simp
  next
    assume "a < 0" "\<not> b < 0"
    then have "nat_digits (nat b) = CHR ''-'' # nat_digits (nat (- a))"
      using eq by (simp add: int_to_string_def)
    then show ?thesis using nat_digits_no_minus by blast
  next
    assume "\<not> a < 0" "b < 0"
    then have "nat_digits (nat a) = CHR ''-'' # nat_digits (nat (- b))"
      using eq by (simp add: int_to_string_def)
    then show ?thesis using nat_digits_no_minus by blast
  next
    assume "\<not> a < 0" "\<not> b < 0"
    then have "nat a = nat b" using eq nat_digits_inj by (simp add: int_to_string_def)
    then show ?thesis using \<open>\<not> a < 0\<close> \<open>\<not> b < 0\<close> by simp
  qed
qed

lemma takeWhile_all: "list_all P xs \<Longrightarrow> takeWhile P xs = xs"
  by (induction xs) simp_all

lemma digit_not_special:
  assumes "is_digit 10 d"
  shows "\<not> is_ws d" and "d \<noteq> CHR ''-''" and "d \<noteq> CHR ''+''" and "d \<noteq> CHR ''x''"
    and "d \<noteq> CHR ''X''"
  using assms by (auto simp: is_ws_def is_digit_def digit_val_def)

lemma digits_not_hex:
  assumes "list_all (is_digit 10) ds"
  shows "\<not> (case ds of a # b # _ \<Rightarrow> a = CHR ''0'' \<and> (b = CHR ''x'' \<or> b = CHR ''X'') | _ \<Rightarrow> False)"
proof (cases ds)
  case Nil
  then show ?thesis by simp
next
  case (Cons a r)
  show ?thesis
  proof (cases r)
    case Nil
    then show ?thesis using Cons by simp
  next
    case (Cons b r')
    then have "is_digit 10 b" using assms \<open>ds = a # r\<close> by simp
    then have "b \<noteq> CHR ''x''" "b \<noteq> CHR ''X''" using digit_not_special by blast+
    then show ?thesis using \<open>ds = a # r\<close> Cons by simp
  qed
qed

lemma parseInt_digits:
  assumes "ds \<noteq> []" and "list_all (is_digit 10) ds"
  shows "parseInt ds = number_value (real (digits_value 10 ds))"
    and "parseInt (CHR ''-'' # ds) = js_neg (number_value (real (digits_value 10 ds)))"
proof -
  obtain d r where ds: "ds = d # r" using assms(1) by (cases ds) auto
  have d: "is_digit 10 d" using assms(2) ds by simp
  note sp = digit_not_special [OF d]
  have nhex: "\<not> (case ds of a # b # _ \<Rightarrow> a = CHR ''0'' \<and> (b = CHR ''x'' \<or> b = CHR ''X'') | _ \<Rightarrow> False)"
    using assms(2) by (rule digits_not_hex)
  have tw: "takeWhile (is_digit 10) ds = ds" using assms(2) by (rule takeWhile_all)
  show "parseInt ds = number_value (real (digits_value 10 ds))"
    using sp nhex tw assms(1) ds by (simp add: parseInt_def Let_def)
  show "parseInt (CHR ''-'' # ds) = js_neg (number_value (real (digits_value 10 ds)))"
    using sp nhex tw assms(1) ds by (simp add: parseInt_def Let_def is_ws_def)
qed

lemma parseInt_int_to_string:
  assumes "\<bar>c\<bar> \<le> 2 ^ 53"
  shows "parseInt (int_to_string c) = Num (of_int c)"
proof (cases "c < 0")
  case False
  then have "nat c \<le> 2 ^ 53" using assms by (simp add: nat_le_iff)
  then have "number_value (real (nat c)) = Num (real (nat c))" by (rule number_value_nat)
  then show ?thesis
    using False parseInt_digits(1) [OF nat_digits_nonempty nat_digits_all_digits, of "nat c"]
    by (simp add: int_to_string_def digits_value_nat_digits)
next
  case True
  then have "nat (- c) \<le> 2 ^ 53" using assms by (simp add: nat_le_iff)
  then have "number_value (real (nat (- c))) = Num (real (nat (- c)))" by (rule number_value_nat)
  then show ?thesis
    using True parseInt_digits(2) [OF nat_digits_nonempty nat_digits_all_digits, of "nat (- c)"]
    by (simp add: int_to_string_def digits_value_nat_digits)
qed

section \<open>Properties of the extractors\<close>

lemma number_to_string_200: "number_to_string (Num 200) = ''200''"
  by (simp add: string_eval number_eval)

subsection \<open>The extractor of the server\<close>

text \<open>
  C3. Whatever the input path, the output directory and the frame count passed in, the
  extractor of the server builds the argument list with \<^verbatim>\<open>-vframes 200\<close> and no
  \<^verbatim>\<open>-vf\<close> filter among its options: it is the list the command-line extractor builds for
  interval 1 and cap 200, without the \<^verbatim>\<open>-vf\<close> pair. This list is what the decoder is
  started with.
\<close>

theorem server_args_fixed:
  "ffmpegArgs_server join inputPath outputDir maxFrames =
     [''-i'', inputPath, ''-vframes'', ''200'', ''-vsync'', ''0'', ''-frame_pts'', ''1'',
      ''-f'', ''image2'', join outputDir ''frame_%d.jpg'']
   \<and> ''-vf'' \<notin> set (take 8 (drop 2 (ffmpegArgs_server join inputPath outputDir maxFrames)))
   \<and> ffmpegArgs_server join inputPath outputDir maxFrames =
       take 4 (ffmpegArgs_cli join inputPath outputDir (Num 1) (Some (Num 200)))
       @ drop 6 (ffmpegArgs_cli join inputPath outputDir (Num 1) (Some (Num 200)))
   \<and> extractFrames_server h inputPath outputDir maxFrames =
       (if \<not> existsSync h outputDir \<and> mkdirSync_throws h outputDir then Rejected FsError
        else ffmpeg_close (spawn_code h ''ffmpeg''
               [''-i'', inputPath, ''-vframes'', ''200'', ''-vsync'', ''0'', ''-frame_pts'', ''1'',
                ''-f'', ''image2'', path_join h outputDir ''frame_%d.jpg'']))"
proof -
  have "ffmpegArgs_cli join inputPath outputDir (Num 1) (Some (Num 200)) =
     [''-i'', inputPath, ''-vframes'', ''200'', ''-vf'', select_filter (Num 1),
      ''-vsync'', ''0'', ''-frame_pts'', ''1'', ''-f'', ''image2'', join outputDir ''frame_%d.jpg'']"
    using number_to_string_200 by (simp add: ffmpegArgs_cli_def splice_insert_def)
  then show ?thesis
    by (simp add: ffmpegArgs_server_def extractFrames_server_def)
qed

text \<open>
  C10. The extractor of the server does not depend on its \<open>maxFrames\<close> argument: two
  calls that differ only in it build the same argument list and end the same way; so the
  upload handler ends as if it had passed any other value than the probed frame count.
\<close>

theorem server_ignores_maxFrames:
  "ffmpegArgs_server join inputPath outputDir m1 = ffmpegArgs_server join inputPath outputDir m2
   \<and> extractFrames_server h inputPath outputDir m1 = extractFrames_server h inputPath outputDir m2
   \<and> upload_extraction h path =
       (case getVideoInfo h path of
          Rejected e \<Rightarrow> Rejected e
        | Uncaught e \<Rightarrow> Uncaught e
        | Resolved info \<Rightarrow> extractFrames_server h path OUTPUT m1)"
  by (simp add: ffmpegArgs_server_def extractFrames_server_def upload_extraction_def
      split: outcome.split)

subsection \<open>Exit codes\<close>

text \<open>
  C4, as stated, fails for the prober: it rejects with a fixed message, the same for exit
  code 1 and for exit code 2, so the rejection does not carry the code.
\<close>

theorem probe_rejection_without_code_counterexample:
  "getVideoInfo_close (Some 1) None = Rejected (Error ''Failed to get video information'')
   \<and> getVideoInfo_close (Some 2) None = Rejected (Error ''Failed to get video information'')
   \<and> getVideoInfo_close (Some 1) None = getVideoInfo_close (Some 2) None"
  by (simp add: getVideoInfo_close_def)

text \<open>
  C4, amended. For every non-zero exit code, the extractor rejects with an error whose
  message ends with the decimal numeral of that code, which no other code has (and from
  which \<^verbatim>\<open>parseInt\<close> reads the code back, for a code of magnitude up to \<open>2\<^sup>5\<^sup>3\<close>), and the
  prober rejects with the fixed message \<^verbatim>\<open>Failed to get video information\<close>; neither
  resolves.
\<close>

theorem nonzero_exit_rejects:
  assumes "c \<noteq> 0"
  shows "ffmpeg_close (Some c)
           = Rejected (Error (''ffmpeg process exited with code '' @ int_to_string c))
       \<and> (\<forall>c'. int_to_string c' = int_to_string c \<longrightarrow> c' = c)
       \<and> (\<bar>c\<bar> \<le> 2 ^ 53 \<longrightarrow> parseInt (int_to_string c) = Num (of_int c))
       \<and> getVideoInfo_close (Some c) parsed
           = Rejected (Error ''Failed to get video information'')"
  using assms int_to_string_inj parseInt_int_to_string
  by (auto simp: ffmpeg_close_def code_to_string_def getVideoInfo_close_def)

theorem nonzero_exit_rejects_witness:
  "(1::int) \<noteq> 0 \<and> \<bar>1::int\<bar> \<le> 2 ^ 53
   \<and> ffmpeg_close (Some 1) = Rejected (Error ''ffmpeg process exited with code 1'')
   \<and> parseInt ''1'' = Num 1
   \<and> getVideoInfo_close (Some 1) None = Rejected (Error ''Failed to get video information'')"
  using nonzero_exit_rejects [of 1 None]
  by (simp add: int_to_string_def nat_digits.simps)

subsection \<open>The extractor of the command-line tool\<close>

text \<open>
  C6, as stated, fails: the extractor tests \<open>maxFrames\<close> for truthiness, so an effective
  maximum of \<open>0\<close>, which the planner computes and passes for a video of no frames, adds no
  \<^verbatim>\<open>-vframes\<close> pair although the maximum is known.
\<close>

theorem cli_args_zero_cap_counterexample:
  "plan_max (plan (Num 0) (Num 25) None) = Num 0
   \<and> ffmpegArgs_cli slash_join ''in.mp4'' ''out'' (Num 4) (Some (Num 0)) =
       [''-i'', ''in.mp4'', ''-vf'', ''select='' @ [CHR 0x27] @ ''not(mod(n,4))'' @ [CHR 0x27],
        ''-vsync'', ''0'', ''-frame_pts'', ''1'', ''-f'', ''image2'', ''out/frame_%d.jpg'']
   \<and> ''-vframes'' \<notin> set (ffmpegArgs_cli slash_join ''in.mp4'' ''out'' (Num 4) (Some (Num 0)))"
  by (simp add: plan_def effectiveMaxFrames_def frameInterval_def ffmpegArgs_cli_def
      select_filter_def slash_join_def string_eval number_eval)

text \<open>
  C6, amended. For every input path, output directory and interval of at least 1, the
  argument list is \<^verbatim>\<open>-i <inputPath> [-vframes <cap>] -vf select='not(mod(n,<interval>))'
  -vsync 0 -frame_pts 1 -f image2 <path.join(outputDir, 'frame_%d.jpg')>\<close>, where
  \<^verbatim>\<open><cap>\<close> and \<^verbatim>\<open><interval>\<close> are the strings JavaScript prints for the two numbers, and
  the \<^verbatim>\<open>-vframes\<close> pair is present exactly when \<open>maxFrames\<close> is a number other than \<open>0\<close>,
  \<open>-0\<close> and \<open>NaN\<close>.
\<close>

theorem cli_args_shape:
  assumes "js_le (Num 1) interval"
  shows "(cap \<noteq> Num 0 \<and> cap \<noteq> NegZero \<and> cap \<noteq> NaN \<longrightarrow>
           ffmpegArgs_cli join inputPath outputDir interval (Some cap) =
             [''-i'', inputPath, ''-vframes'', number_to_string cap,
              ''-vf'', ''select='' @ [CHR 0x27] @ ''not(mod(n,'' @ number_to_string interval
                       @ ''))'' @ [CHR 0x27],
              ''-vsync'', ''0'', ''-frame_pts'', ''1'', ''-f'', ''image2'',
              join outputDir ''frame_%d.jpg''])
       \<and> (m = None \<or> m = Some (Num 0) \<or> m = Some NegZero \<or> m = Some NaN \<longrightarrow>
           ffmpegArgs_cli join inputPath outputDir interval m =
             [''-i'', inputPath,
              ''-vf'', ''select='' @ [CHR 0x27] @ ''not(mod(n,'' @ number_to_string interval
                       @ ''))'' @ [CHR 0x27],
              ''-vsync'', ''0'', ''-frame_pts'', ''1'', ''-f'', ''image2'',
              join outputDir ''frame_%d.jpg''])"
proof -
  have filter: "select_filter interval
      = ''select='' @ [CHR 0x27] @ ''not(mod(n,'' @ number_to_string interval @ ''))'' @ [CHR 0x27]"
    by (simp add: select_filter_def)
  have with_cap: "ffmpegArgs_cli join inputPath outputDir interval (Some cap) =
             [''-i'', inputPath, ''-vframes'', number_to_string cap,
              ''-vf'', select_filter interval,
              ''-vsync'', ''0'', ''-frame_pts'', ''1'', ''-f'', ''image2'',
              join outputDir ''frame_%d.jpg'']"
    if "cap \<noteq> Num 0" and "cap \<noteq> NegZero" and "cap \<noteq> NaN"
    using that by (simp add: ffmpegArgs_cli_def truthy_Some_iff splice_insert_def)
  have without: "ffmpegArgs_cli join inputPath outputDir interval m =
             [''-i'', inputPath, ''-vf'', select_filter interval,
              ''-vsync'', ''0'', ''-frame_pts'', ''1'', ''-f'', ''image2'',
              join outputDir ''frame_%d.jpg'']"
    if "m = None \<or> m = Some (Num 0) \<or> m = Some NegZero \<or> m = Some NaN"
    using that by (auto simp: ffmpegArgs_cli_def)
  from with_cap without show ?thesis unfolding filter by blast
qed

theorem cli_args_shape_witness:
  "js_le (Num 1) (Num 10) \<and> Num 50 \<noteq> Num 0 \<and> Num 50 \<noteq> NegZero \<and> Num 50 \<noteq> NaN
   \<and> ffmpegArgs_cli slash_join ''in.mp4'' ''out'' (Num 10) (Some (Num 50)) =
       [''-i'', ''in.mp4'', ''-vframes'', ''50'',
        ''-vf'', ''select='' @ [CHR 0x27] @ ''not(mod(n,10))'' @ [CHR 0x27],
        ''-vsync'', ''0'', ''-frame_pts'', ''1'', ''-f'', ''image2'', ''out/frame_%d.jpg'']
   \<and> ffmpegArgs_cli slash_join ''in.mp4'' ''out'' (Num 10) None =
       [''-i'', ''in.mp4'',
        ''-vf'', ''select='' @ [CHR 0x27] @ ''not(mod(n,10))'' @ [CHR 0x27],
        ''-vsync'', ''0'', ''-frame_pts'', ''1'', ''-f'', ''image2'', ''out/frame_%d.jpg'']"
proof -
  have a: "number_to_string (Num 10) = ''10''" by (simp add: string_eval number_eval)
  have b: "number_to_string (Num 50) = ''50''" by (simp add: string_eval number_eval)
  show ?thesis
    using cli_args_shape [of "Num 10" "Num 50" slash_join "''in.mp4''" "''out''" None] a b
    by (simp add: slash_join_def js_le_def)
qed

text \<open>
  Where the printed number is not the plain decimal numeral: an interval of \<open>10\<^sup>2\<^sup>1\<close> is
  printed with an exponent, so the filter is \<^verbatim>\<open>select='not(mod(n,1e+21))'\<close>.
\<close>

lemma select_filter_exponent:
  "select_filter (Num (10 ^ 21)) = ''select='' @ [CHR 0x27] @ ''not(mod(n,1e+21))'' @ [CHR 0x27]"
  by (simp add: select_filter_def string_eval number_eval)

section \<open>Properties of the prober\<close>

lemma split_on_no_sep: "c \<notin> set s \<Longrightarrow> split_on c s = [s]"
  by (induction s) auto

lemma split_on_sep: "c \<notin> set n \<Longrightarrow> split_on c (n @ c # d) = n # split_on c d"
  by (induction n) auto

lemma payload_rate_lookup:
  "map_of (rev (field ''r_frame_rate'' rate @ field ''nb_frames'' frames)) ''r_frame_rate'' = rate"
  by (cases rate; cases frames) (simp_all add: field_def)

lemma payload_frames_lookup:
  "map_of (rev (field ''r_frame_rate'' rate @ field ''nb_frames'' frames)) ''nb_frames'' = frames"
  by (cases rate; cases frames) (simp_all add: field_def)

lemma payload_resolves:
  "getVideoInfo_close (Some 0) (Some (ffprobe_payload (Some (JStr rate)) frames)) =
     (case to_string_opt frames of
        Inl e \<Rightarrow> Uncaught e
      | Inr text \<Rightarrow>
          Resolved \<lparr>frameRate =
                      js_div (to_number_opt (case split_on CHR ''/'' rate of [] \<Rightarrow> None | a # _ \<Rightarrow> Some a))
                             (to_number_opt (case split_on CHR ''/'' rate of a # b # _ \<Rightarrow> Some b | _ \<Rightarrow> None)),
                    totalFrames = parseInt text\<rparr>)"
proof -
  let ?fs = "field ''r_frame_rate'' (Some (JStr rate)) @ field ''nb_frames'' frames"
  have s: "get_member (Some (ffprobe_payload (Some (JStr rate)) frames)) ''streams''
            = Inr (Some (JArr [JObj ?fs]))"
    by (simp add: get_member_def ffprobe_payload_def)
  have f: "get_first (Some (JArr [JObj ?fs])) = Inr (Some (JObj ?fs))"
    by (simp add: get_first_def)
  have r: "get_member (Some (JObj ?fs)) ''r_frame_rate'' = Inr (Some (JStr rate))"
    using payload_rate_lookup [of "Some (JStr rate)" frames] by (simp add: get_member_def)
  have n: "get_member (Some (JObj ?fs)) ''nb_frames'' = Inr frames"
    using payload_frames_lookup [of "Some (JStr rate)" frames] by (simp add: get_member_def)
  show ?thesis
    by (simp add: getVideoInfo_close_def s f r n Let_def)
qed

lemma payload_no_rate:
  assumes "\<forall>s. rate \<noteq> Some (JStr s)"
  shows "getVideoInfo_close (Some 0) (Some (ffprobe_payload rate frames)) = Uncaught TypeError"
proof -
  let ?fs = "field ''r_frame_rate'' rate @ field ''nb_frames'' frames"
  have s: "get_member (Some (ffprobe_payload rate frames)) ''streams''
            = Inr (Some (JArr [JObj ?fs]))"
    by (simp add: get_member_def ffprobe_payload_def)
  have f: "get_first (Some (JArr [JObj ?fs])) = Inr (Some (JObj ?fs))"
    by (simp add: get_first_def)
  have r: "get_member (Some (JObj ?fs)) ''r_frame_rate'' = Inr rate"
    using payload_rate_lookup [of rate frames] by (simp add: get_member_def)
  show ?thesis
    using assms by (simp add: getVideoInfo_close_def s f r split: option.split json.split)
qed

lemma no_streams:
  assumes "map_of (rev kvs) ''streams'' = None \<or> map_of (rev kvs) ''streams'' = Some (JArr [])"
  shows "getVideoInfo_close (Some 0) (Some (JObj kvs)) = Uncaught TypeError"
  using assms by (auto simp: getVideoInfo_close_def get_member_def get_first_def)

lemma parseInt_skip_ws: "parseInt s = parseInt (dropWhile is_ws s)"
  by (simp add: parseInt_def)

lemma parseInt_no_digit:
  assumes "dropWhile is_ws s = []
         \<or> (\<exists>c r. dropWhile is_ws s = c # r \<and> \<not> is_digit 10 c \<and> c \<noteq> CHR ''+'' \<and> c \<noteq> CHR ''-'')"
  shows "parseInt s = NaN"
proof -
  from assms consider "dropWhile is_ws s = []"
    | c r where "dropWhile is_ws s = c # r" "\<not> is_digit 10 c" "c \<noteq> CHR ''+''" "c \<noteq> CHR ''-''"
    by blast
  then show ?thesis
  proof cases
    case 1
    have "parseInt [] = NaN" by (simp add: parseInt_def)
    then show ?thesis by (subst parseInt_skip_ws) (simp only: 1)
  next
    case 2
    have "\<not> is_ws (hd (dropWhile is_ws s))"
      using 2(1) hd_dropWhile [of is_ws s] by simp
    then have nws: "\<not> is_ws c" using 2(1) by simp
    have "is_digit 10 CHR ''0''" by (simp add: is_digit_def digit_val_def)
    then have "c \<noteq> CHR ''0''" using 2(2) by auto
    then have "parseInt (c # r) = NaN"
      using 2 nws by (simp add: parseInt_def Let_def split: list.split)
    then show ?thesis by (subst parseInt_skip_ws) (simp only: 2(1))
  qed
qed

lemma parseInt_leading_digits:
  assumes "is_digit 10 d"
    and "d = CHR ''0'' \<longrightarrow> take 1 rest \<noteq> ''x'' \<and> take 1 rest \<noteq> ''X''"
  shows "parseInt (d # rest)
           = number_value (real (digits_value 10 (takeWhile (is_digit 10) (d # rest))))"
proof -
  note sp = digit_not_special [OF assms(1)]
  have nhex: "\<not> (case d # rest of a # b # _ \<Rightarrow> a = CHR ''0'' \<and> (b = CHR ''x'' \<or> b = CHR ''X'') | _ \<Rightarrow> False)"
    using assms(2) by (cases rest) auto
  show ?thesis using sp nhex assms(1) by (simp add: parseInt_def Let_def)
qed

lemma quotient_by_zero:
  assumes "z = Num 0 \<or> z = NegZero"
  shows "js_div x z \<in> {PosInf, NegInf, NaN}"
  using assms
  by (cases x) (auto simp: js_div_def is_zero_def is_infinite_def signed_infinity_def)

lemma js_div_NaN_right: "js_div x NaN = NaN"
  by (simp add: js_div_def)

lemma number_value_pos_underflow:
  assumes "0 < x" and "x \<le> 2 powi (- 1075)"
  shows "number_value_pos x = Num 0"
proof -
  have "2 powi ilog2 x \<le> x" using ilog2_bracket [OF assms(1)] by simp
  then have "(2::real) powi ilog2 x \<le> 2 powi (- 1075)" using assms(2) by linarith
  then have "ilog2 x \<le> - 1075"
    using power_int_strict_increasing [of "- 1075" "ilog2 x" "2::real"]
    by (cases "ilog2 x \<le> - 1075") auto
  then have m: "max (ilog2 x) (- 1022) = - 1022" by simp
  have "(2::real) powi (- 1075) = 2 powi (- 1074) / 2"
    using power_int_add [of "2::real" "- 1075" 1] by simp
  then have half: "x / 2 powi (- 1074) \<le> 1 / 2"
    using assms(2) by (simp add: pos_divide_le_eq)
  have pos: "0 < x / 2 powi (- 1074)" using assms(1) by simp
  have fl: "\<lfloor>x / 2 powi (- 1074)\<rfloor> = 0" using half pos by linarith
  have "round_half_even (x / 2 powi (- 1074)) = 0"
    using half fl by (auto simp: round_half_even_def Let_def)
  then show ?thesis using m by (simp add: number_value_pos_def Let_def)
qed

lemmas probe_eval = getVideoInfo_close_def get_member_def get_first_def ffprobe_payload_def
  field_def to_number_opt_def to_string_opt_def string_to_number_def trim_def is_ws_def
  unsigned_decimal_def non_decimal_def exponent_part_def parseInt_def
  is_digit_def digit_val_def digits_value_def

text \<open>The worked example of the specification: \<^verbatim>\<open>30000/1001\<close> is about 29.97.\<close>

lemma frame_rate_example:
  "getVideoInfo_close (Some 0)
     (Some (ffprobe_payload (Some (JStr ''30000/1001'')) (Some (JStr ''1000''))))
   = Resolved \<lparr>frameRate = Num (1054476685978981 / 2 ^ 45), totalFrames = Num 1000\<rparr>"
  by (simp add: probe_eval number_eval)

lemma frame_rate_example_bounds:
  "(2997 / 100 :: real) < 1054476685978981 / 2 ^ 45 \<and> (1054476685978981 / 2 ^ 45 :: real) < 2998 / 100"
  by simp

subsection \<open>Failures of the prober\<close>

text \<open>
  C5, as stated, fails in three of its four cases. Output that is not well-formed and a
  missing stream entry make the \<^verbatim>\<open>close\<close> handler throw, which is an uncaught exception
  and not a rejection; a frame rate that is not of the form \<open>num/den\<close>, such as
  \<^verbatim>\<open>abc\<close>, makes the prober resolve with the frame rate \<open>NaN\<close>.
\<close>

theorem probe_failures_counterexample:
  "getVideoInfo_close (Some 0) None = Uncaught SyntaxError
   \<and> getVideoInfo_close (Some 0) (Some (JObj [(''streams'', JArr [])])) = Uncaught TypeError
   \<and> getVideoInfo_close (Some 0)
        (Some (ffprobe_payload (Some (JStr ''abc'')) (Some (JStr ''100''))))
       = Resolved \<lparr>frameRate = NaN, totalFrames = Num 100\<rparr>"
  by (simp add: probe_eval number_eval)

text \<open>
  C5, amended. The prober rejects, with an \<^verbatim>\<open>Error\<close>, when the inspection process does
  not exit with code 0. When it exits with code 0: output that is not well-formed throws an
  uncaught \<^verbatim>\<open>SyntaxError\<close>; a payload without \<^verbatim>\<open>streams\<close> or with an empty
  \<^verbatim>\<open>streams\<close> array throws an uncaught \<^verbatim>\<open>TypeError\<close>, and so does a stream whose
  \<^verbatim>\<open>r_frame_rate\<close> is missing or not a string; a stream whose \<^verbatim>\<open>r_frame_rate\<close> is a
  string is never rejected: the prober resolves, with the frame rate \<open>NaN\<close> when the string
  has no \<^verbatim>\<open>/\<close>, unless taking the string of \<^verbatim>\<open>nb_frames\<close> throws, which is uncaught
  too.
\<close>

theorem probe_failures:
  "(code \<noteq> Some 0 \<longrightarrow>
      getVideoInfo_close code parsed = Rejected (Error ''Failed to get video information''))
   \<and> getVideoInfo_close (Some 0) None = Uncaught SyntaxError
   \<and> (map_of (rev kvs) ''streams'' = None \<or> map_of (rev kvs) ''streams'' = Some (JArr []) \<longrightarrow>
        getVideoInfo_close (Some 0) (Some (JObj kvs)) = Uncaught TypeError)
   \<and> ((\<forall>s. rate \<noteq> Some (JStr s)) \<longrightarrow>
        getVideoInfo_close (Some 0) (Some (ffprobe_payload rate frames)) = Uncaught TypeError)
   \<and> (CHR ''/'' \<notin> set text \<longrightarrow>
        getVideoInfo_close (Some 0) (Some (ffprobe_payload (Some (JStr text)) frames))
          = (case to_string_opt frames of
               Inl e \<Rightarrow> Uncaught e
             | Inr s \<Rightarrow> Resolved \<lparr>frameRate = NaN, totalFrames = parseInt s\<rparr>))
   \<and> (case getVideoInfo_close (Some 0) (Some (ffprobe_payload (Some (JStr text)) frames)) of
         Resolved info \<Rightarrow> (case to_string_opt frames of Inl e \<Rightarrow> False | Inr s \<Rightarrow> True)
       | Rejected e \<Rightarrow> False
       | Uncaught e \<Rightarrow> to_string_opt frames = Inl e)"
proof -
  have a: "getVideoInfo_close code parsed = Rejected (Error ''Failed to get video information'')"
    if "code \<noteq> Some 0"
    using that by (simp add: getVideoInfo_close_def)
  have b: "getVideoInfo_close (Some 0) None = Uncaught SyntaxError"
    by (simp add: getVideoInfo_close_def)
  have c: "getVideoInfo_close (Some 0) (Some (ffprobe_payload (Some (JStr text)) frames))
          = (case to_string_opt frames of
               Inl e \<Rightarrow> Uncaught e
             | Inr s \<Rightarrow> Resolved \<lparr>frameRate = NaN, totalFrames = parseInt s\<rparr>)"
    if "CHR ''/'' \<notin> set text"
    using split_on_no_sep [OF that]
    by (simp add: payload_resolves to_number_opt_def js_div_NaN_right split: sum.split)
  have d: "(case getVideoInfo_close (Some 0) (Some (ffprobe_payload (Some (JStr text)) frames)) of
         Resolved info \<Rightarrow> (case to_string_opt frames of Inl e \<Rightarrow> False | Inr s \<Rightarrow> True)
       | Rejected e \<Rightarrow> False
       | Uncaught e \<Rightarrow> to_string_opt frames = Inl e)"
    by (simp add: payload_resolves split: sum.split)
  from a b c d no_streams [of kvs] payload_no_rate [of rate frames] show ?thesis by blast
qed

theorem probe_failures_witness:
  "Some (1::int) \<noteq> Some 0
   \<and> getVideoInfo_close (Some 1) None = Rejected (Error ''Failed to get video information'')
   \<and> getVideoInfo_close (Some 0) None = Uncaught SyntaxError
   \<and> map_of (rev [(''format'', JNull)]) ''streams'' = None
   \<and> getVideoInfo_close (Some 0) (Some (JObj [(''format'', JNull)])) = Uncaught TypeError
   \<and> (\<forall>s. Some (JNum (Num 30)) \<noteq> Some (JStr s))
   \<and> getVideoInfo_close (Some 0) (Some (ffprobe_payload (Some (JNum (Num 30))) None))
       = Uncaught TypeError
   \<and> CHR ''/'' \<notin> set ''abc''
   \<and> getVideoInfo_close (Some 0) (Some (ffprobe_payload (Some (JStr ''abc'')) None))
       = Resolved \<lparr>frameRate = NaN, totalFrames = NaN\<rparr>"
  using probe_failures [of "Some 1" None "[(''format'', JNull)]" "Some (JNum (Num 30))" None "''abc''"]
  by (simp add: to_string_opt_def parseInt_def is_ws_def is_digit_def digit_val_def Let_def)

text \<open>
  A frame count that is an object with a property \<^verbatim>\<open>toString\<close> of its own makes
  \<^verbatim>\<open>parseInt\<close> throw; one that is the number \<open>10\<^sup>2\<^sup>1\<close> is read from its string
  \<^verbatim>\<open>1e+21\<close>, which gives 1.
\<close>

lemma frames_object_throws:
  "getVideoInfo_close (Some 0)
     (Some (ffprobe_payload (Some (JStr ''30/1'')) (Some (JObj [(''toString'', JNum (Num 1))]))))
   = Uncaught TypeError"
  by (simp add: payload_resolves to_string_opt_def)

lemma frames_number_exponent:
  "getVideoInfo_close (Some 0)
     (Some (ffprobe_payload (Some (JStr ''30/1'')) (Some (JNum (Num (10 ^ 21))))))
   = Resolved \<lparr>frameRate = Num 30, totalFrames = Num 1\<rparr>"
proof -
  have "number_to_string (Num (10 ^ 21)) = ''1e+21''" by (simp add: string_eval number_eval)
  then show ?thesis by (simp add: probe_eval number_eval)
qed

subsection \<open>A zero denominator\<close>

text \<open>
  C8, as stated, fails: for the frame rate \<^verbatim>\<open>30/0\<close> the prober resolves, and the
  division gives the frame rate \<open>Infinity\<close>.
\<close>

theorem zero_denominator_counterexample:
  "getVideoInfo_close (Some 0)
     (Some (ffprobe_payload (Some (JStr ''30/0'')) (Some (JStr ''1000''))))
   = Resolved \<lparr>frameRate = PosInf, totalFrames = Num 1000\<rparr>"
  by (simp add: probe_eval number_eval)

text \<open>
  C8, amended. When the frame rate is \<open>num/den\<close> and the denominator converts to \<open>0\<close> or
  \<open>-0\<close>, the prober does not treat this as an error: it resolves (unless taking the string
  of \<^verbatim>\<open>nb_frames\<close> throws), and its frame rate is the JavaScript quotient, which is
  \<open>Infinity\<close>, \<open>-Infinity\<close> or \<open>NaN\<close> and never a finite number.
\<close>

theorem zero_denominator:
  assumes "CHR ''/'' \<notin> set n" and "CHR ''/'' \<notin> set d"
    and "string_to_number d = Num 0 \<or> string_to_number d = NegZero"
  shows "getVideoInfo_close (Some 0) (Some (ffprobe_payload (Some (JStr (n @ ''/'' @ d))) frames))
           = (case to_string_opt frames of
                Inl e \<Rightarrow> Uncaught e
              | Inr s \<Rightarrow>
                  Resolved \<lparr>frameRate = js_div (string_to_number n) (string_to_number d),
                            totalFrames = parseInt s\<rparr>)
       \<and> js_div (string_to_number n) (string_to_number d) \<in> {PosInf, NegInf, NaN}"
proof -
  have "split_on CHR ''/'' (n @ ''/'' @ d) = [n, d]"
    using split_on_sep [OF assms(1), of d] split_on_no_sep [OF assms(2)] by simp
  then have "getVideoInfo_close (Some 0) (Some (ffprobe_payload (Some (JStr (n @ ''/'' @ d))) frames))
           = (case to_string_opt frames of
                Inl e \<Rightarrow> Uncaught e
              | Inr s \<Rightarrow>
                  Resolved \<lparr>frameRate = js_div (string_to_number n) (string_to_number d),
                            totalFrames = parseInt s\<rparr>)"
    by (simp add: payload_resolves to_number_opt_def split: sum.split)
  moreover have "js_div (string_to_number n) (string_to_number d) \<in> {PosInf, NegInf, NaN}"
    using assms(3) by (rule quotient_by_zero)
  ultimately show ?thesis by simp
qed

theorem zero_denominator_witness:
  "CHR ''/'' \<notin> set ''25'' \<and> CHR ''/'' \<notin> set ''-0'' \<and> string_to_number ''-0'' = NegZero
   \<and> getVideoInfo_close (Some 0) (Some (ffprobe_payload (Some (JStr ''25/-0'')) None))
       = Resolved \<lparr>frameRate = NegInf, totalFrames = NaN\<rparr>"
proof -
  have z: "string_to_number ''-0'' = NegZero"
    by (simp add: string_to_number_def trim_def is_ws_def unsigned_decimal_def exponent_part_def
        is_digit_def digit_val_def digits_value_def number_eval)
  have n: "string_to_number ''25'' = Num 25"
    by (simp add: string_to_number_def trim_def is_ws_def unsigned_decimal_def exponent_part_def
        is_digit_def digit_val_def digits_value_def number_eval)
  have p: "parseInt ''undefined'' = NaN"
    by (simp add: parseInt_def is_ws_def is_digit_def digit_val_def Let_def)
  show ?thesis
    using zero_denominator [of "''25''" "''-0''" None] z n p
    by (simp add: to_string_opt_def js_div_def is_zero_def is_infinite_def signed_infinity_def)
qed

text \<open>A denominator that underflows to zero: \<^verbatim>\<open>1e-400\<close>.\<close>

lemma denominator_underflow:
  "string_to_number ''1e-400'' = Num 0"
proof -
  have "(1 / 10 ^ 400 :: real) \<le> 2 powi (- 1075)"
    by (simp add: power_int_minus_divide)
  then have "number_value_pos (1 / 10 ^ 400) = Num 0"
    by (intro number_value_pos_underflow) simp_all
  then have "number_value (1 / 10 ^ 400) = Num 0" by (simp add: number_value_def)
  then show ?thesis
    by (simp add: string_to_number_def trim_def is_ws_def unsigned_decimal_def exponent_part_def
        is_digit_def digit_val_def digits_value_def Let_def power_int_minus_divide)
qed

subsection \<open>The frame count\<close>

text \<open>
  C9, as stated, fails: \<^verbatim>\<open>parseInt\<close> reads a leading integer and ignores what follows,
  so the non-numeric field \<^verbatim>\<open>12abc\<close> gives the frame count 12, an integer.
\<close>

theorem nb_frames_prefix_counterexample:
  "getVideoInfo_close (Some 0)
     (Some (ffprobe_payload (Some (JStr ''30/1'')) (Some (JStr ''12abc''))))
   = Resolved \<lparr>frameRate = Num 30, totalFrames = Num 12\<rparr>"
  by (simp add: probe_eval number_eval)

text \<open>
  C9, amended. When the inspection process exits with code 0 and reports a stream with a
  string frame rate, and \<^verbatim>\<open>nb_frames\<close> is missing or a string, the prober resolves. Its
  frame count is \<open>NaN\<close> when \<^verbatim>\<open>nb_frames\<close> is missing, or is a string that after its
  leading white space is empty or starts with a character that is neither a digit nor a
  sign (as \<^verbatim>\<open>N/A\<close> does). A string that starts with a digit (not with \<^verbatim>\<open>0x\<close>) gives
  the Number value for the integer of its leading digits, whatever follows them: never
  \<open>NaN\<close>, and that integer itself up to \<open>2\<^sup>5\<^sup>3\<close>.
\<close>

theorem nb_frames_not_a_number:
  "(case getVideoInfo_close (Some 0) (Some (ffprobe_payload (Some (JStr rate)) None)) of
      Resolved info \<Rightarrow> totalFrames info = NaN | Rejected e \<Rightarrow> False | Uncaught e \<Rightarrow> False)
   \<and> (dropWhile is_ws s = []
        \<or> (\<exists>c r. dropWhile is_ws s = c # r \<and> \<not> is_digit 10 c \<and> c \<noteq> CHR ''+'' \<and> c \<noteq> CHR ''-'')
       \<longrightarrow>
       (case getVideoInfo_close (Some 0) (Some (ffprobe_payload (Some (JStr rate)) (Some (JStr s)))) of
          Resolved info \<Rightarrow> totalFrames info = NaN | Rejected e \<Rightarrow> False | Uncaught e \<Rightarrow> False))
   \<and> (is_digit 10 d \<and> (d = CHR ''0'' \<longrightarrow> take 1 rest \<noteq> ''x'' \<and> take 1 rest \<noteq> ''X'')
       \<longrightarrow>
       (case getVideoInfo_close (Some 0)
               (Some (ffprobe_payload (Some (JStr rate)) (Some (JStr (d # rest))))) of
          Resolved info \<Rightarrow>
            totalFrames info
              = number_value (real (digits_value 10 (takeWhile (is_digit 10) (d # rest))))
            \<and> totalFrames info \<noteq> NaN
            \<and> (digits_value 10 (takeWhile (is_digit 10) (d # rest)) \<le> 2 ^ 53 \<longrightarrow>
                 totalFrames info
                   = Num (real (digits_value 10 (takeWhile (is_digit 10) (d # rest)))))
        | Rejected e \<Rightarrow> False | Uncaught e \<Rightarrow> False))"
proof -
  have "parseInt ''undefined'' = NaN"
    by (simp add: parseInt_def is_ws_def is_digit_def digit_val_def Let_def)
  then have a: "(case getVideoInfo_close (Some 0) (Some (ffprobe_payload (Some (JStr rate)) None)) of
      Resolved info \<Rightarrow> totalFrames info = NaN | Rejected e \<Rightarrow> False | Uncaught e \<Rightarrow> False)"
    by (simp add: payload_resolves to_string_opt_def)
  have b: "(case getVideoInfo_close (Some 0) (Some (ffprobe_payload (Some (JStr rate)) (Some (JStr s)))) of
          Resolved info \<Rightarrow> totalFrames info = NaN | Rejected e \<Rightarrow> False | Uncaught e \<Rightarrow> False)"
    if "dropWhile is_ws s = []
        \<or> (\<exists>c r. dropWhile is_ws s = c # r \<and> \<not> is_digit 10 c \<and> c \<noteq> CHR ''+'' \<and> c \<noteq> CHR ''-'')"
    using parseInt_no_digit [OF that] by (simp add: payload_resolves to_string_opt_def)
  have c: "(case getVideoInfo_close (Some 0)
               (Some (ffprobe_payload (Some (JStr rate)) (Some (JStr (d # rest))))) of
          Resolved info \<Rightarrow>
            totalFrames info
              = number_value (real (digits_value 10 (takeWhile (is_digit 10) (d # rest))))
            \<and> totalFrames info \<noteq> NaN
            \<and> (digits_value 10 (takeWhile (is_digit 10) (d # rest)) \<le> 2 ^ 53 \<longrightarrow>
                 totalFrames info
                   = Num (real (digits_value 10 (takeWhile (is_digit 10) (d # rest)))))
        | Rejected e \<Rightarrow> False | Uncaught e \<Rightarrow> False)"
    if "is_digit 10 d" and "d = CHR ''0'' \<longrightarrow> take 1 rest \<noteq> ''x'' \<and> take 1 rest \<noteq> ''X''"
    using parseInt_leading_digits [OF that] number_value_not_NaN number_value_nat
    by (simp add: payload_resolves to_string_opt_def)
  from a b c show ?thesis by blast
qed

theorem nb_frames_not_a_number_witness:
  "dropWhile is_ws ''N/A'' = ''N/A'' \<and> \<not> is_digit 10 CHR ''N''
   \<and> is_digit 10 CHR ''1'' \<and> CHR ''1'' \<noteq> CHR ''0''
   \<and> digits_value 10 (takeWhile (is_digit 10) ''1000'') \<le> 2 ^ 53
   \<and> getVideoInfo_close (Some 0) (Some (ffprobe_payload (Some (JStr ''25/1'')) None))
       = Resolved \<lparr>frameRate = Num 25, totalFrames = NaN\<rparr>
   \<and> getVideoInfo_close (Some 0) (Some (ffprobe_payload (Some (JStr ''25/1'')) (Some (JStr ''N/A''))))
       = Resolved \<lparr>frameRate = Num 25, totalFrames = NaN\<rparr>
   \<and> getVideoInfo_close (Some 0) (Some (ffprobe_payload (Some (JStr ''25/1'')) (Some (JStr ''1000''))))
       = Resolved \<lparr>frameRate = Num 25, totalFrames = Num 1000\<rparr>"
  using nb_frames_not_a_number [of "''25/1''" "''N/A''" "CHR ''1''" "''000''"]
  by (simp add: probe_eval number_eval)

text \<open>
  Above \<open>2\<^sup>5\<^sup>3\<close> the frame count is the binary64 value nearest to the digits:
  \<^verbatim>\<open>9007199254740993\<close> gives 9007199254740992.
\<close>

lemma frames_rounded:
  "getVideoInfo_close (Some 0)
     (Some (ffprobe_payload (Some (JStr ''30/1'')) (Some (JStr ''9007199254740993''))))
   = Resolved \<lparr>frameRate = Num 30, totalFrames = Num 9007199254740992\<rparr>"
  by (simp add: probe_eval number_eval)

end
